theory Spec2Isabelle
  imports Main "HOL-Library.Word"
begin

unbundle bit_operations_syntax

section \<open>JavaScript values\<close>

text \<open>
  Strings are \<open>char list\<close>: one \<open>char\<close> per UTF-8 byte, which is one UTF-16 unit (what
  \<open>String.length\<close> and \<open>slice\<close> count) exactly for ASCII text. Numbers are \<open>int\<close>: the
  numbers of this program are counts, lengths, HTTP status codes and millisecond
  timestamps. Dates are their millisecond timestamps.

  \<open>String.prototype.slice (b, e)\<close>: a negative index counts from the end, both indices are
  clamped to the string, and the result is empty when the end does not lie after the start.
  \<open>slice (0, -0)\<close> is \<open>slice (0, 0)\<close>, the empty string.
\<close>

definition js_slice :: "string \<Rightarrow> int \<Rightarrow> int \<Rightarrow> string" where
  "js_slice s b e =
     (let n = int (length s);
          from = (if b < 0 then max (n + b) 0 else min b n);
          to = (if e < 0 then max (n + e) 0 else min e n)
      in take (nat (to - from)) (drop (nat from) s))"

text \<open>
  A JSON value as \<open>JSON.parse\<close> yields it and \<open>JSON.stringify\<close> reads it. An object is the
  list of its own enumerable properties in enumeration order (for keys that are not array
  indices this is insertion order), with distinct keys.
\<close>

datatype json =
    JNull
  | JBool bool
  | JNum int
  | JStr string
  | JArr "json list"
  | JObj "(string \<times> json) list"

text \<open>
  \<open>truthy\<close> is JavaScript's \<open>ToBoolean\<close>; \<open>property v k\<close> is \<open>v.k\<close> for an own data
  property of an object and \<open>None\<close> (undefined) otherwise. \<open>spread a b\<close> is the object
  literal \<open>{...a, ...b}\<close>.
\<close>

fun truthy :: "json \<Rightarrow> bool" where
  "truthy JNull = False"
| "truthy (JBool b) = b"
| "truthy (JNum n) = (n \<noteq> 0)"
| "truthy (JStr s) = (s \<noteq> [])"
| "truthy (JArr xs) = True"
| "truthy (JObj kvs) = True"

definition property :: "json \<Rightarrow> string \<Rightarrow> json option" where
  "property v key = (case v of JObj kvs \<Rightarrow> map_of kvs key | _ \<Rightarrow> None)"

definition toLowerCase :: "string \<Rightarrow> string" where
  "toLowerCase s =
     map (\<lambda>c. let n = (of_char c :: nat) in if 65 \<le> n \<and> n \<le> 90 then char_of (n + 32) else c) s"

definition toUpperCase :: "string \<Rightarrow> string" where
  "toUpperCase s =
     map (\<lambda>c. let n = (of_char c :: nat) in if 97 \<le> n \<and> n \<le> 122 then char_of (n - 32) else c) s"

definition spread :: "(string \<times> 'a) list \<Rightarrow> (string \<times> 'a) list \<Rightarrow> (string \<times> 'a) list" where
  "spread a b =
     map (\<lambda>kv. (fst kv, case map_of b (fst kv) of Some v \<Rightarrow> v | None \<Rightarrow> snd kv)) a
     @ filter (\<lambda>kv. map_of a (fst kv) = None) b"

subsection \<open>JSON.stringify\<close>

text \<open>
  \<open>JSON.stringify\<close> without a replacer or indentation: properties are written in
  enumeration order, strings are quoted with the escapes of ECMA-262 (\<open>QuoteJSONString\<close>).
\<close>

definition hex_digit :: "nat \<Rightarrow> char" where
  "hex_digit n = ''0123456789abcdef'' ! (n mod 16)"

function digits10 :: "nat \<Rightarrow> string" where
  "digits10 n = (if n < 10 then [hex_digit n] else digits10 (n div 10) @ [hex_digit (n mod 10)])"
  by pat_completeness auto
termination
  by (relation "measure id") auto

declare digits10.simps [simp del]

definition number_to_string :: "int \<Rightarrow> string" where
  "number_to_string i = (if i < 0 then CHR ''-'' # digits10 (nat (- i)) else digits10 (nat i))"

definition escape_char :: "char \<Rightarrow> string" where
  "escape_char c =
     (if c = CHR 0x22 then [CHR 0x5C, CHR 0x22]
      else if c = CHR 0x5C then [CHR 0x5C, CHR 0x5C]
      else if c = CHR 0x08 then [CHR 0x5C, CHR ''b'']
      else if c = CHR 0x0C then [CHR 0x5C, CHR ''f'']
      else if c = CHR 0x0A then [CHR 0x5C, CHR ''n'']
      else if c = CHR 0x0D then [CHR 0x5C, CHR ''r'']
      else if c = CHR 0x09 then [CHR 0x5C, CHR ''t'']
      else if of_char c < (0x20 :: nat) then
        [CHR 0x5C, CHR ''u'', CHR ''0'', CHR ''0'', hex_digit (of_char c div 16), hex_digit (of_char c)]
      else [c])"

definition quote :: "string \<Rightarrow> string" where
  "quote s = [CHR 0x22] @ concat (map escape_char s) @ [CHR 0x22]"

fun join_with :: "string \<Rightarrow> string list \<Rightarrow> string" where
  "join_with sep [] = []"
| "join_with sep [x] = x"
| "join_with sep (x # y # ys) = x @ sep @ join_with sep (y # ys)"

fun stringify :: "json \<Rightarrow> string" where
  "stringify JNull = ''null''"
| "stringify (JBool b) = (if b then ''true'' else ''false'')"
| "stringify (JNum n) = number_to_string n"
| "stringify (JStr s) = quote s"
| "stringify (JArr xs) = ''['' @ join_with '','' (map stringify xs) @ '']''"
| "stringify (JObj kvs) =
     ''{'' @ join_with '','' (map (\<lambda>kv. quote (fst kv) @ '':'' @ stringify (snd kv)) kvs) @ ''}''"

text \<open>
  Reading the text back, for the proof that \<open>stringify\<close> is injective: the value of a
  hexadecimal digit and of a decimal numeral, the character that an escape sequence stands
  for, the characters that can follow a value inside an array or an object, and the kind
  of a value, which its first character determines.
\<close>

definition hex_value :: "char \<Rightarrow> nat" where
  "hex_value c = (let n = (of_char c :: nat) in if 48 \<le> n \<and> n \<le> 57 then n - 48 else n - 87)"

definition unescape1 :: "string \<Rightarrow> (char \<times> string) option" where
  "unescape1 s =
     (case s of
        [] \<Rightarrow> None
      | c # r \<Rightarrow>
          if c \<noteq> CHR 0x5C then Some (c, r)
          else
            (case r of
               [] \<Rightarrow> None
             | x # r' \<Rightarrow>
                 if x = CHR 0x22 then Some (CHR 0x22, r')
                 else if x = CHR 0x5C then Some (CHR 0x5C, r')
                 else if x = CHR ''b'' then Some (CHR 0x08, r')
                 else if x = CHR ''f'' then Some (CHR 0x0C, r')
                 else if x = CHR ''n'' then Some (CHR 0x0A, r')
                 else if x = CHR ''r'' then Some (CHR 0x0D, r')
                 else if x = CHR ''t'' then Some (CHR 0x09, r')
                 else
                   (case r' of
                      a # b # h # l # r'' \<Rightarrow> Some (char_of (16 * hex_value h + hex_value l), r'')
                    | _ \<Rightarrow> None)))"

definition decimal_value :: "string \<Rightarrow> nat" where
  "decimal_value s = foldl (\<lambda>a c. 10 * a + hex_value c) 0 s"

definition is_digit :: "char \<Rightarrow> bool" where
  "is_digit c = (48 \<le> (of_char c :: nat) \<and> (of_char c :: nat) \<le> 57)"

definition closes :: "string \<Rightarrow> bool" where
  "closes r = (r = [] \<or> hd r = CHR '','' \<or> hd r = CHR '']'' \<or> hd r = CHR ''}'')"

fun json_kind :: "json \<Rightarrow> nat" where
  "json_kind JNull = 0"
| "json_kind (JBool b) = 1"
| "json_kind (JNum i) = 2"
| "json_kind (JStr s) = 3"
| "json_kind (JArr xs) = 4"
| "json_kind (JObj kvs) = 5"

definition char_kind :: "char \<Rightarrow> nat" where
  "char_kind c =
     (if c = CHR ''n'' then 0
      else if c = CHR ''t'' \<or> c = CHR ''f'' then 1
      else if c = CHR 0x22 then 3
      else if c = CHR ''['' then 4
      else if c = CHR ''{'' then 5
      else if c = CHR '','' \<or> c = CHR '']'' \<or> c = CHR ''}'' then 6
      else 2)"

section \<open>MD5\<close>

text \<open>
  \<open>crypto.createHash ('md5').update (s).digest ('hex')\<close> of Node.js is the MD5 digest of
  RFC 1321 over the bytes of \<open>s\<close>, written as 32 lower-case hexadecimal digits: the
  message is padded to a multiple of 64 bytes, read as little-endian 32-bit words, and
  each block of 16 words goes through 64 steps on four 32-bit registers.
\<close>

type_synonym u32 = "32 word"

definition md5_pad :: "int list \<Rightarrow> int list" where
  "md5_pad bytes =
     (let n = length bytes;
          zeros = (55 + 64 - n mod 64) mod 64;
          bits = 8 * int n
      in bytes @ [128] @ replicate zeros 0 @ map (\<lambda>i. (bits div 256 ^ i) mod 256) [0..<8])"

fun le_words :: "int list \<Rightarrow> u32 list" where
  "le_words (b0 # b1 # b2 # b3 # bs) =
     of_int (b0 + 256 * b1 + 65536 * b2 + 16777216 * b3) # le_words bs"
| "le_words _ = []"

definition md5_K :: "u32 list" where
  "md5_K =
     [0xd76aa478, 0xe8c7b756, 0x242070db, 0xc1bdceee,
      0xf57c0faf, 0x4787c62a, 0xa8304613, 0xfd469501,
      0x698098d8, 0x8b44f7af, 0xffff5bb1, 0x895cd7be,
      0x6b901122, 0xfd987193, 0xa679438e, 0x49b40821,
      0xf61e2562, 0xc040b340, 0x265e5a51, 0xe9b6c7aa,
      0xd62f105d, 0x02441453, 0xd8a1e681, 0xe7d3fbc8,
      0x21e1cde6, 0xc33707d6, 0xf4d50d87, 0x455a14ed,
      0xa9e3e905, 0xfcefa3f8, 0x676f02d9, 0x8d2a4c8a,
      0xfffa3942, 0x8771f681, 0x6d9d6122, 0xfde5380c,
      0xa4beea44, 0x4bdecfa9, 0xf6bb4b60, 0xbebfbc70,
      0x289b7ec6, 0xeaa127fa, 0xd4ef3085, 0x04881d05,
      0xd9d4d039, 0xe6db99e5, 0x1fa27cf8, 0xc4ac5665,
      0xf4292244, 0x432aff97, 0xab9423a7, 0xfc93a039,
      0x655b59c3, 0x8f0ccc92, 0xffeff47d, 0x85845dd1,
      0x6fa87e4f, 0xfe2ce6e0, 0xa3014314, 0x4e0811a1,
      0xf7537e82, 0xbd3af235, 0x2ad7d2bb, 0xeb86d391]"

definition md5_S :: "nat list" where
  "md5_S =
     [7, 12, 17, 22, 7, 12, 17, 22, 7, 12, 17, 22, 7, 12, 17, 22,
      5, 9, 14, 20, 5, 9, 14, 20, 5, 9, 14, 20, 5, 9, 14, 20,
      4, 11, 16, 23, 4, 11, 16, 23, 4, 11, 16, 23, 4, 11, 16, 23,
      6, 10, 15, 21, 6, 10, 15, 21, 6, 10, 15, 21, 6, 10, 15, 21]"

definition rotl32 :: "nat \<Rightarrow> u32 \<Rightarrow> u32" where
  "rotl32 n w = push_bit n w OR drop_bit (32 - n) w"

type_synonym md5_state = "u32 \<times> u32 \<times> u32 \<times> u32"

definition md5_step :: "u32 list \<Rightarrow> md5_state \<Rightarrow> nat \<Rightarrow> md5_state" where
  "md5_step M st i =
     (case st of (A, B, C, D) \<Rightarrow>
        let (F, g) =
              (if i < 16 then ((B AND C) OR (NOT B AND D), i)
               else if i < 32 then ((D AND B) OR (NOT D AND C), (5 * i + 1) mod 16)
               else if i < 48 then (B XOR C XOR D, (3 * i + 5) mod 16)
               else (C XOR (B OR NOT D), (7 * i) mod 16));
            F' = F + A + md5_K ! i + M ! g
        in (D, B + rotl32 (md5_S ! i) F', B, C))"

definition md5_block :: "md5_state \<Rightarrow> u32 list \<Rightarrow> md5_state" where
  "md5_block st M =
     (case (st, foldl (md5_step M) st [0..<64]) of
        ((a0, b0, c0, d0), (A, B, C, D)) \<Rightarrow> (a0 + A, b0 + B, c0 + C, d0 + D))"

function md5_blocks :: "md5_state \<Rightarrow> u32 list \<Rightarrow> md5_state" where
  "md5_blocks st ws = (if length ws < 16 then st else md5_blocks (md5_block st (take 16 ws)) (drop 16 ws))"
  by pat_completeness auto
termination
  by (relation "measure (\<lambda>(st, ws). length ws)") auto

declare md5_blocks.simps [simp del]

definition hex_byte :: "int \<Rightarrow> string" where
  "hex_byte b = [hex_digit (nat (b div 16)), hex_digit (nat (b mod 16))]"

definition hex_le :: "u32 \<Rightarrow> string" where
  "hex_le w = concat (map (\<lambda>i. hex_byte ((uint w div 256 ^ i) mod 256)) [0..<4])"

definition md5_hex :: "string \<Rightarrow> string" where
  "md5_hex s =
     (case md5_blocks (0x67452301, 0xefcdab89, 0x98badcfe, 0x10325476)
             (le_words (md5_pad (map of_char s))) of
        (A, B, C, D) \<Rightarrow> hex_le A @ hex_le B @ hex_le C @ hex_le D)"

section \<open>Request fingerprints\<close>

text \<open>
  \<open>#generateRequestHash\<close> of \<open>GithubService\<close> and of \<open>SunoService\<close>: the MD5 of
  \<open>service:method:endpoint:JSON.stringify (params)\<close>.
\<close>

definition GithubService_generateRequestHash :: "string \<Rightarrow> string \<Rightarrow> json \<Rightarrow> string" where
  "GithubService_generateRequestHash method endpoint params =
     md5_hex (''github:'' @ method @ '':'' @ endpoint @ '':'' @ stringify params)"

definition SunoService_generateRequestHash :: "string \<Rightarrow> string \<Rightarrow> json \<Rightarrow> string" where
  "SunoService_generateRequestHash method endpoint queryOrParams =
     md5_hex (''suno:'' @ method @ '':'' @ endpoint @ '':'' @ stringify queryOrParams)"

section \<open>Tables and collaborators\<close>

text \<open>
  An axios response and a thrown error, as far as the code reads them
  (\<open>response.status\<close>, \<open>response.data\<close>, \<open>error.message\<close>, \<open>error.response\<close>), and
  the configuration object handed to \<open>axios\<close>.
\<close>

record http_response =
  resp_status :: int
  resp_data :: json

record js_error =
  message :: string
  error_response :: "http_response option"

definition Error :: "string \<Rightarrow> js_error" where
  "Error msg = \<lparr>message = msg, error_response = None\<rparr>"

record axios_config =
  cfg_method :: string
  cfg_url :: string
  cfg_headers :: "(string \<times> string) list"
  cfg_params :: "json option"
  cfg_data :: "json option"

text \<open>
  The rows of \<open>schema.prisma\<close> that the services write. A column that clashes with a
  parameter name of the code carries a prefix (\<open>call_\<close>, \<open>limit_\<close>, \<open>song_\<close>, \<open>att_\<close>,
  \<open>repo_\<close>); auto-increment keys that are never read are left out. \<open>response\<close> is
  \<open>JNull\<close> for SQL null.
\<close>

record ApiCall =
  call_service :: string
  call_endpoint :: string
  call_method :: string
  call_params :: json
  request_hash :: string
  response :: json
  status_code :: "int option"
  is_success :: bool
  error_message :: "string option"
  request_time :: int
  response_time :: "int option"
  duration :: "int option"
  expires_at :: "int option"
  created_at :: int
  updated_at :: int

record ApiLimit =
  limit_service :: string
  requests_limit :: int
  requests_used :: int
  requests_reset :: int
  is_active :: bool
  limit_created_at :: int
  limit_updated_at :: int

record Attachment =
  att_id :: int
  att_slug :: string
  att_url :: string
  att_mime :: string
  att_location :: string

record Repository =
  repo_pk :: int
  repo_owner :: string
  repo_name :: string
  full_name :: string
  repo_url :: string

record Song =
  song_pk :: int
  title :: string
  lyrics :: string
  style :: "string option"
  instrumental :: bool
  suno_task_id :: "string option"
  cover_image_url :: "string option"
  status :: string
  repository_id :: int
  time_range :: json
  commit_count :: int
  song_prompt :: "string option"
  song_created_at :: int
  song_updated_at :: int
  completed_at :: "int option"

record AudioFile =
  filename :: string
  url :: string
  file_type :: string
  mime_type :: string
  is_vocal :: bool
  is_original :: bool
  song_id :: int
  attachment_id :: "int option"
  suno_audio_id :: "string option"

text \<open>
  The state the services share. \<open>apiCalls\<close> is keyed by \<open>request_hash\<close> and \<open>apiLimits\<close>
  by \<open>service\<close>, the unique columns every query of the code uses. Two fields observe
  effects that are not rows: \<open>live_calls\<close> lists the requests handed to \<open>axios\<close>, in order,
  and \<open>warnings\<close> the \<open>console.warn\<close> messages.
\<close>

datatype warning =
    ApiLimitNotUpdated string string
  | NoSongRecord string
  | NoAudioUrl

record tables =
  apiCalls :: "string \<rightharpoonup> ApiCall"
  apiLimits :: "string \<rightharpoonup> ApiLimit"
  repositories :: "Repository list"
  songs :: "Song list"
  audioFiles :: "AudioFile list"
  live_calls :: "axios_config list"
  warnings :: "warning list"

record options =
  cacheHours :: "int option"
  headers :: "(string \<times> string) list option"
  disableCache :: "bool option"

text \<open>
  What one invocation meets outside the program: the environment variables, the clock
  readings (the cache check, \<open>startTime\<close>, \<open>endTime\<close>, the readings while the result is
  stored, the readings in the \<open>catch\<close> block), the outcome of each Prisma call that can
  throw (\<open>findUnique\<close>, the \<open>upsert\<close> after a successful call, the \<open>upsert\<close> of
  \<open>#updateApiLimit\<close>, the \<open>upsert\<close> in the \<open>catch\<close> block), the network as a function from
  the request to its outcome, \<open>UploadService.createAttachmentFromUrl\<close>, and the image
  request and upload inside \<open>AIService.generateCoverImage\<close>. Prisma calls on the song and
  audio-file tables are taken to succeed.
\<close>

record env =
  GITHUB_API_TOKEN :: "string option"
  SUNO_API_KEY :: "string option"
  check_time :: int
  startTime :: int
  endTime :: int
  store_time :: int
  failure_time :: int
  find_error :: "js_error option"
  axios :: "axios_config \<Rightarrow> js_error + http_response"
  upsert_error :: "js_error option"
  limit_error :: "js_error option"
  failure_upsert_error :: "js_error option"
  createAttachmentFromUrl :: "string \<Rightarrow> js_error + Attachment"
  openai_image :: "string \<Rightarrow> js_error + Attachment"
  callback_time :: int

definition upsert :: "('k \<rightharpoonup> 'v) \<Rightarrow> 'k \<Rightarrow> ('v \<Rightarrow> 'v) \<Rightarrow> 'v \<Rightarrow> ('k \<rightharpoonup> 'v)" where
  "upsert tbl key update create =
     tbl(key \<mapsto> (case tbl key of Some row \<Rightarrow> update row | None \<Rightarrow> create))"

section \<open>The cached API call\<close>

text \<open>
  The parts that \<open>GithubService.#cachedApiCall\<close> and \<open>SunoService.#cachedApiCall\<close> have
  word for word in common: the defaults of the options, the cache-hit condition, the
  status and body taken from an error, the expiry, and the two \<open>upsert\<close> arguments.
\<close>

definition DEFAULT_CACHE_HOURS :: int where
  "DEFAULT_CACHE_HOURS = 24"

definition option_cacheHours :: "options \<Rightarrow> int" where
  "option_cacheHours opts = (case cacheHours opts of None \<Rightarrow> DEFAULT_CACHE_HOURS | Some h \<Rightarrow> h)"

definition option_headers :: "options \<Rightarrow> (string \<times> string) list" where
  "option_headers opts = (case headers opts of None \<Rightarrow> [] | Some h \<Rightarrow> h)"

definition option_disableCache :: "options \<Rightarrow> bool" where
  "option_disableCache opts = (case disableCache opts of None \<Rightarrow> False | Some b \<Rightarrow> b)"

definition cache_valid :: "int \<Rightarrow> ApiCall \<Rightarrow> bool" where
  "cache_valid now cachedCall =
     (is_success cachedCall \<and>
      (case expires_at cachedCall of None \<Rightarrow> True | Some e \<Rightarrow> now < e))"

definition error_status :: "js_error \<Rightarrow> int" where
  "error_status error =
     (case error_response error of
        None \<Rightarrow> 500
      | Some r \<Rightarrow> if resp_status r = 0 then 500 else resp_status r)"

definition error_data :: "js_error \<Rightarrow> json" where
  "error_data error =
     (case error_response error of
        None \<Rightarrow> JNull
      | Some r \<Rightarrow> if truthy (resp_data r) then resp_data r else JNull)"

definition expiry :: "env \<Rightarrow> int \<Rightarrow> int option" where
  "expiry e cacheHrs =
     (if cacheHrs \<noteq> 0 then Some (store_time e + cacheHrs * 60 * 60 * 1000) else None)"

definition record_success ::
  "env \<Rightarrow> string \<Rightarrow> string \<Rightarrow> string \<Rightarrow> json \<Rightarrow> string \<Rightarrow> http_response \<Rightarrow> int option
     \<Rightarrow> (string \<rightharpoonup> ApiCall) \<Rightarrow> (string \<rightharpoonup> ApiCall)" where
  "record_success e svc method endpoint params requestHash resp expiresAt tbl =
     upsert tbl requestHash
       (\<lambda>row. row\<lparr>response := resp_data resp, status_code := Some (resp_status resp),
                  response_time := Some (endTime e), duration := Some (endTime e - startTime e),
                  expires_at := expiresAt, is_success := True, error_message := None,
                  updated_at := store_time e\<rparr>)
       \<lparr>call_service = svc, call_endpoint = endpoint, call_method = toUpperCase method,
        call_params = params,
        request_hash = requestHash, response = resp_data resp,
        status_code = Some (resp_status resp), is_success = True, error_message = None,
        request_time = startTime e, response_time = Some (endTime e),
        duration = Some (endTime e - startTime e), expires_at = expiresAt,
        created_at = store_time e, updated_at = store_time e\<rparr>"

definition record_failure ::
  "env \<Rightarrow> string \<Rightarrow> string \<Rightarrow> string \<Rightarrow> json \<Rightarrow> string \<Rightarrow> js_error
     \<Rightarrow> (string \<rightharpoonup> ApiCall) \<Rightarrow> (string \<rightharpoonup> ApiCall)" where
  "record_failure e svc method endpoint params requestHash error tbl =
     upsert tbl requestHash
       (\<lambda>row. row\<lparr>status_code := Some (error_status error), is_success := False,
                  error_message := Some (message error), response := error_data error,
                  updated_at := failure_time e\<rparr>)
       \<lparr>call_service = svc, call_endpoint = endpoint, call_method = toUpperCase method,
        call_params = params,
        request_hash = requestHash, response = error_data error,
        status_code = Some (error_status error), is_success = False,
        error_message = Some (message error),
        request_time = failure_time e, response_time = Some (failure_time e),
        duration = None, expires_at = None,
        created_at = failure_time e, updated_at = failure_time e\<rparr>"

subsection \<open>GithubService\<close>

text \<open>
  \<open>#cachedApiCall\<close> is one \<open>try\<close> block with one \<open>catch\<close>. \<open>GithubService_catch\<close> is the
  \<open>catch\<close> block: it stores the failure and throws the error again; when its own
  \<open>upsert\<close> throws, that error leaves the function. \<open>GithubService_liveCall\<close> is the
  \<open>try\<close> block from step 3 on, \<open>GithubService_cachedApiCall\<close> the whole function.
\<close>

definition GithubService_getAuthHeaders :: "env \<Rightarrow> (string \<times> string) list" where
  "GithubService_getAuthHeaders e =
     (''Accept'', ''application/vnd.github.v3+json'') #
     (case GITHUB_API_TOKEN e of
        None \<Rightarrow> []
      | Some t \<Rightarrow> if t = [] then [] else [(''Authorization'', ''token '' @ t)])"

definition GithubService_updateApiLimit :: "env \<Rightarrow> string \<Rightarrow> tables \<Rightarrow> tables" where
  "GithubService_updateApiLimit e svc db =
     (case limit_error e of
        Some error \<Rightarrow> db\<lparr>warnings := warnings db @ [ApiLimitNotUpdated svc (message error)]\<rparr>
      | None \<Rightarrow>
          db\<lparr>apiLimits := upsert (apiLimits db) svc
                (\<lambda>row. row\<lparr>requests_used := requests_used row + 1,
                           limit_updated_at := store_time e\<rparr>)
                \<lparr>limit_service = svc,
                 requests_limit = (if svc = ''github'' then 5000 else 1000),
                 requests_used = 1,
                 requests_reset = store_time e + 60 * 60 * 1000,
                 is_active = True,
                 limit_created_at = store_time e,
                 limit_updated_at = store_time e\<rparr>\<rparr>)"

definition GithubService_catch ::
  "env \<Rightarrow> string \<Rightarrow> string \<Rightarrow> json \<Rightarrow> string \<Rightarrow> js_error \<Rightarrow> tables
     \<Rightarrow> (js_error + json) \<times> tables" where
  "GithubService_catch e method endpoint params requestHash error db =
     (case failure_upsert_error e of
        Some error2 \<Rightarrow> (Inl error2, db)
      | None \<Rightarrow>
          (Inl error,
           db\<lparr>apiCalls := record_failure e ''github'' method endpoint
                  (if truthy params then params else JObj []) requestHash error (apiCalls db)\<rparr>))"

definition GithubService_request ::
  "env \<Rightarrow> string \<Rightarrow> string \<Rightarrow> json \<Rightarrow> (string \<times> string) list \<Rightarrow> axios_config" where
  "GithubService_request e method endpoint params hdrs =
     (let url = ''https://api.github.com'' @ endpoint
      in \<lparr>cfg_method = toLowerCase method, cfg_url = url,
          cfg_headers = spread (GithubService_getAuthHeaders e) hdrs,
          cfg_params = (if toUpperCase method = ''GET'' then Some params else None),
          cfg_data = (if toUpperCase method = ''GET'' then None else Some params)\<rparr>)"

definition GithubService_liveCall ::
  "env \<Rightarrow> string \<Rightarrow> string \<Rightarrow> json \<Rightarrow> int \<Rightarrow> (string \<times> string) list \<Rightarrow> string \<Rightarrow> tables
     \<Rightarrow> (js_error + json) \<times> tables" where
  "GithubService_liveCall e method endpoint params cacheHrs hdrs requestHash db =
     (let request = GithubService_request e method endpoint params hdrs;
          db1 = db\<lparr>live_calls := live_calls db @ [request]\<rparr>
      in case axios e request of
           Inl error \<Rightarrow> GithubService_catch e method endpoint params requestHash error db1
         | Inr resp \<Rightarrow>
             (let expiresAt = expiry e cacheHrs
              in case upsert_error e of
                   Some error \<Rightarrow> GithubService_catch e method endpoint params requestHash error db1
                 | None \<Rightarrow>
                     (let db2 = db1\<lparr>apiCalls := record_success e ''github'' method endpoint
                                        (if truthy params then params else JObj []) requestHash
                                        resp expiresAt (apiCalls db1)\<rparr>;
                          db3 = GithubService_updateApiLimit e ''github'' db2
                      in (Inr (resp_data resp), db3))))"

definition GithubService_cachedApiCall ::
  "env \<Rightarrow> string \<Rightarrow> string \<Rightarrow> json \<Rightarrow> options \<Rightarrow> tables \<Rightarrow> (js_error + json) \<times> tables" where
  "GithubService_cachedApiCall e method endpoint params opts db =
     (let cacheHrs = option_cacheHours opts;
          hdrs = option_headers opts;
          requestHash = GithubService_generateRequestHash method endpoint params
      in case find_error e of
           Some error \<Rightarrow> GithubService_catch e method endpoint params requestHash error db
         | None \<Rightarrow>
             (case apiCalls db requestHash of
                Some cachedCall \<Rightarrow>
                  if cache_valid (check_time e) cachedCall then (Inr (response cachedCall), db)
                  else GithubService_liveCall e method endpoint params cacheHrs hdrs requestHash db
              | None \<Rightarrow> GithubService_liveCall e method endpoint params cacheHrs hdrs requestHash db))"

subsection \<open>SunoService\<close>

text \<open>
  The same function with the option \<open>disableCache\<close>, which skips the lookup, and a
  \<open>catch\<close> block that throws a new error.
\<close>

definition SunoService_getAuthHeaders :: "env \<Rightarrow> (string \<times> string) list" where
  "SunoService_getAuthHeaders e =
     [(''Content-Type'', ''application/json''),
      (''Authorization'', ''Bearer '' @ (case SUNO_API_KEY e of None \<Rightarrow> ''undefined'' | Some k \<Rightarrow> k))]"

definition SunoService_updateApiLimit :: "env \<Rightarrow> tables \<Rightarrow> tables" where
  "SunoService_updateApiLimit e db =
     (case limit_error e of
        Some error \<Rightarrow> db\<lparr>warnings := warnings db @ [ApiLimitNotUpdated ''suno'' (message error)]\<rparr>
      | None \<Rightarrow>
          db\<lparr>apiLimits := upsert (apiLimits db) ''suno''
                (\<lambda>row. row\<lparr>requests_used := requests_used row + 1,
                           limit_updated_at := store_time e\<rparr>)
                \<lparr>limit_service = ''suno'',
                 requests_limit = 1000,
                 requests_used = 1,
                 requests_reset = store_time e + 60 * 60 * 1000,
                 is_active = True,
                 limit_created_at = store_time e,
                 limit_updated_at = store_time e\<rparr>\<rparr>)"

definition SunoService_catch ::
  "env \<Rightarrow> string \<Rightarrow> string \<Rightarrow> json \<Rightarrow> string \<Rightarrow> js_error \<Rightarrow> tables
     \<Rightarrow> (js_error + json) \<times> tables" where
  "SunoService_catch e method endpoint requestData requestHash error db =
     (case failure_upsert_error e of
        Some error2 \<Rightarrow> (Inl error2, db)
      | None \<Rightarrow>
          (Inl \<lparr>message = ''Suno API call failed: '' @ message error, error_response = None\<rparr>,
           db\<lparr>apiCalls := record_failure e ''suno'' method endpoint requestData requestHash error
                  (apiCalls db)\<rparr>))"

definition SunoService_request ::
  "env \<Rightarrow> string \<Rightarrow> string \<Rightarrow> json \<Rightarrow> (string \<times> string) list \<Rightarrow> axios_config" where
  "SunoService_request e method endpoint requestData hdrs =
     (let url = ''https://apibox.erweima.ai/api'' @ endpoint
      in \<lparr>cfg_method = toLowerCase method, cfg_url = url,
          cfg_headers = spread (SunoService_getAuthHeaders e) hdrs,
          cfg_params = (if toUpperCase method = ''GET'' then Some requestData else None),
          cfg_data = (if toUpperCase method = ''GET'' then None else Some requestData)\<rparr>)"

definition SunoService_liveCall ::
  "env \<Rightarrow> string \<Rightarrow> string \<Rightarrow> json \<Rightarrow> int \<Rightarrow> (string \<times> string) list \<Rightarrow> string \<Rightarrow> tables
     \<Rightarrow> (js_error + json) \<times> tables" where
  "SunoService_liveCall e method endpoint requestData cacheHrs hdrs requestHash db =
     (let axiosConfig = SunoService_request e method endpoint requestData hdrs;
          db1 = db\<lparr>live_calls := live_calls db @ [axiosConfig]\<rparr>
      in case axios e axiosConfig of
           Inl error \<Rightarrow> SunoService_catch e method endpoint requestData requestHash error db1
         | Inr resp \<Rightarrow>
             (let expiresAt = expiry e cacheHrs
              in case upsert_error e of
                   Some error \<Rightarrow> SunoService_catch e method endpoint requestData requestHash error db1
                 | None \<Rightarrow>
                     (let db2 = db1\<lparr>apiCalls := record_success e ''suno'' method endpoint requestData
                                        requestHash resp expiresAt (apiCalls db1)\<rparr>;
                          db3 = SunoService_updateApiLimit e db2
                      in (Inr (resp_data resp), db3))))"

definition SunoService_cachedApiCall ::
  "env \<Rightarrow> string \<Rightarrow> string \<Rightarrow> json \<Rightarrow> options \<Rightarrow> tables \<Rightarrow> (js_error + json) \<times> tables" where
  "SunoService_cachedApiCall e method endpoint requestData opts db =
     (let cacheHrs = option_cacheHours opts;
          hdrs = option_headers opts;
          disable = option_disableCache opts;
          requestHash = SunoService_generateRequestHash method endpoint requestData
      in if \<not> disable then
           (case find_error e of
              Some error \<Rightarrow> SunoService_catch e method endpoint requestData requestHash error db
            | None \<Rightarrow>
                (case apiCalls db requestHash of
                   Some cachedCall \<Rightarrow>
                     if cache_valid (check_time e) cachedCall then (Inr (response cachedCall), db)
                     else SunoService_liveCall e method endpoint requestData cacheHrs hdrs requestHash db
                 | None \<Rightarrow> SunoService_liveCall e method endpoint requestData cacheHrs hdrs requestHash db))
         else SunoService_liveCall e method endpoint requestData cacheHrs hdrs requestHash db)"

definition no_options :: options where
  "no_options = \<lparr>cacheHours = None, headers = None, disableCache = None\<rparr>"

definition SunoService_getTaskDetails ::
  "env \<Rightarrow> string \<Rightarrow> options \<Rightarrow> tables \<Rightarrow> (js_error + json) \<times> tables" where
  "SunoService_getTaskDetails e taskId opts db =
     (if taskId = [] then (Inl \<lparr>message = ''Missing parameter: taskId'', error_response = None\<rparr>, db)
      else
        (let endpoint = ''/v1/generate/record-info'';
             finalOptions = opts\<lparr>disableCache := Some True\<rparr>
         in SunoService_cachedApiCall e ''GET'' endpoint (JObj [(''taskId'', JStr taskId)]) finalOptions db))"

definition SunoService_getLyricsTaskDetails ::
  "env \<Rightarrow> string \<Rightarrow> options \<Rightarrow> tables \<Rightarrow> (js_error + json) \<times> tables" where
  "SunoService_getLyricsTaskDetails e taskId opts db =
     (if taskId = [] then (Inl \<lparr>message = ''Missing parameter: taskId'', error_response = None\<rparr>, db)
      else
        (let endpoint = ''/v1/lyrics/record-info'';
             finalOptions = opts\<lparr>disableCache := Some True\<rparr>
         in SunoService_cachedApiCall e ''GET'' endpoint (JObj [(''taskId'', JStr taskId)]) finalOptions db))"

record audio_params =
  ap_prompt :: string
  ap_style :: "string option"
  ap_title :: "string option"
  ap_customMode :: bool
  ap_instrumental :: bool
  ap_model :: string
  ap_callBackUrl :: string

definition falsy_string :: "string option \<Rightarrow> bool" where
  "falsy_string s = (s = None \<or> s = Some [])"

definition SunoService_generateAudio ::
  "env \<Rightarrow> audio_params \<Rightarrow> tables \<Rightarrow> (js_error + json) \<times> tables" where
  "SunoService_generateAudio e p db =
     (if ap_prompt p = [] then (Inl (Error ''Missing parameter: prompt''), db)
      else if ap_callBackUrl p = [] then (Inl (Error ''Missing parameter: callBackUrl''), db)
      else if ap_customMode p \<and> ap_instrumental p \<and> (falsy_string (ap_style p) \<or> falsy_string (ap_title p))
        then (Inl (Error ''Custom mode + instrumental requiere style y title''), db)
      else if ap_customMode p \<and> \<not> ap_instrumental p
              \<and> (falsy_string (ap_style p) \<or> ap_prompt p = [] \<or> falsy_string (ap_title p))
        then (Inl (Error ''Custom mode requiere style, prompt y title (si no es instrumental)''), db)
      else if ap_customMode p \<and> length (ap_prompt p) > 3000
        then (Inl (Error ''Prompt excede 3000 caracteres en customMode''), db)
      else if ap_customMode p \<and> (case ap_style p of None \<Rightarrow> False | Some st \<Rightarrow> length st > 200)
        then (Inl (Error ''Style excede 200 caracteres''), db)
      else if ap_customMode p \<and> (case ap_title p of None \<Rightarrow> False | Some t \<Rightarrow> length t > 80)
        then (Inl (Error ''Title excede 80 caracteres''), db)
      else if \<not> ap_customMode p \<and> length (ap_prompt p) > 400
        then (Inl (Error ''Prompt excede 400 caracteres en non-custom mode''), db)
      else
        (let requestData = JObj
               ([(''prompt'', JStr (ap_prompt p)),
                 (''customMode'', JBool (ap_customMode p)),
                 (''instrumental'', JBool (ap_instrumental p)),
                 (''model'', JStr (ap_model p)),
                 (''callBackUrl'', JStr (ap_callBackUrl p))]
                @ (if ap_customMode p then
                     (case ap_style p of None \<Rightarrow> [] | Some st \<Rightarrow> if st = [] then [] else [(''style'', JStr st)])
                     @ (case ap_title p of None \<Rightarrow> [] | Some t \<Rightarrow> if t = [] then [] else [(''title'', JStr t)])
                   else []));
             endpoint = ''/v1/generate''
         in SunoService_cachedApiCall e ''POST'' endpoint requestData no_options db))"

definition SunoService_generateLyrics ::
  "env \<Rightarrow> string \<Rightarrow> string \<Rightarrow> tables \<Rightarrow> (js_error + json) \<times> tables" where
  "SunoService_generateLyrics e prompt callBackUrl db =
     (if prompt = [] then (Inl (Error ''Missing parameter: prompt''), db)
      else if callBackUrl = [] then (Inl (Error ''Missing parameter: callBackUrl''), db)
      else
        (let endpoint = ''/v1/lyrics'';
             requestData = JObj [(''prompt'', JStr prompt), (''callBackUrl'', JStr callBackUrl)]
         in SunoService_cachedApiCall e ''POST'' endpoint requestData no_options db))"

text \<open>
  The body of a callback as the handlers read it: \<open>callbackData.data\<close> is \<open>None\<close> when
  \<open>callbackData\<close> or its \<open>data\<close> is missing, \<open>tracks\<close> is \<open>data.data\<close> and \<open>None\<close> when that
  is not an array, \<open>improved_lyrics\<close> is \<open>data.lyrics\<close>. Of a track the code reads
  \<open>audio_url\<close> and \<open>id\<close>; the rest goes into the metadata of the upload.
  \<open>saveTracks\<close> is the \<open>for\<close> loop of \<open>downloadAndSaveSongFromCallback\<close>.
\<close>

record track =
  track_id :: "string option"
  audio_url :: "string option"

record callback_data =
  task_id :: string
  callbackType :: "string option"
  tracks :: "track list option"
  improved_lyrics :: "string option"

type_synonym saved_file = "track \<times> Attachment"

definition no_data_field :: string where
  "no_data_field = ''Invalid callback data (no '' @ [CHR 0x22] @ ''data'' @ [CHR 0x22] @ '' field)''"

fun saveTracks :: "env \<Rightarrow> track list \<Rightarrow> saved_file list \<Rightarrow> tables \<Rightarrow> (js_error + saved_file list) \<times> tables" where
  "saveTracks e [] results db = (Inr results, db)"
| "saveTracks e (t # ts) results db =
     (case (case audio_url t of None \<Rightarrow> None | Some u \<Rightarrow> if u = [] then None else Some u) of
        None \<Rightarrow> saveTracks e ts results (db\<lparr>warnings := warnings db @ [NoAudioUrl]\<rparr>)
      | Some u \<Rightarrow>
          (case createAttachmentFromUrl e u of
             Inl error \<Rightarrow> (Inl error, db)
           | Inr attachment \<Rightarrow> saveTracks e ts (results @ [(t, attachment)]) db))"

definition SunoService_downloadAndSaveSongFromCallback ::
  "env \<Rightarrow> callback_data option \<Rightarrow> tables \<Rightarrow> (js_error + saved_file list) \<times> tables" where
  "SunoService_downloadAndSaveSongFromCallback e callbackData db =
     (case (case callbackData of None \<Rightarrow> None | Some d \<Rightarrow> tracks d) of
        None \<Rightarrow>
          (Inl (Error (''Error downloading song: Estructura de callback data inv''
                       @ [CHR 0xC3, CHR 0xA1] @ ''lida'')), db)
      | Some ts \<Rightarrow>
          (case saveTracks e ts [] db of
             (Inl error, db') \<Rightarrow> (Inl (Error (''Error downloading song: '' @ message error)), db')
           | (Inr results, db') \<Rightarrow> (Inr results, db')))"

subsection \<open>Both services\<close>

text \<open>
  The two cached calls differ in the service name, the base URL, the headers, the
  \<open>disableCache\<close> option and the error thrown. The definitions below select the service,
  so that a property of the cached call is stated once for both.
\<close>

datatype service = Github | Suno

definition service_name :: "service \<Rightarrow> string" where
  "service_name svc = (case svc of Github \<Rightarrow> ''github'' | Suno \<Rightarrow> ''suno'')"

definition generateRequestHash :: "service \<Rightarrow> string \<Rightarrow> string \<Rightarrow> json \<Rightarrow> string" where
  "generateRequestHash svc =
     (case svc of Github \<Rightarrow> GithubService_generateRequestHash | Suno \<Rightarrow> SunoService_generateRequestHash)"

definition cachedApiCall ::
  "service \<Rightarrow> env \<Rightarrow> string \<Rightarrow> string \<Rightarrow> json \<Rightarrow> options \<Rightarrow> tables \<Rightarrow> (js_error + json) \<times> tables" where
  "cachedApiCall svc =
     (case svc of Github \<Rightarrow> GithubService_cachedApiCall | Suno \<Rightarrow> SunoService_cachedApiCall)"

definition liveCall ::
  "service \<Rightarrow> env \<Rightarrow> string \<Rightarrow> string \<Rightarrow> json \<Rightarrow> options \<Rightarrow> tables \<Rightarrow> (js_error + json) \<times> tables" where
  "liveCall svc e method endpoint params opts db =
     (case svc of
        Github \<Rightarrow>
          GithubService_liveCall e method endpoint params (option_cacheHours opts) (option_headers opts)
            (GithubService_generateRequestHash method endpoint params) db
      | Suno \<Rightarrow>
          SunoService_liveCall e method endpoint params (option_cacheHours opts) (option_headers opts)
            (SunoService_generateRequestHash method endpoint params) db)"

definition live_request :: "service \<Rightarrow> env \<Rightarrow> string \<Rightarrow> string \<Rightarrow> json \<Rightarrow> options \<Rightarrow> axios_config" where
  "live_request svc e method endpoint params opts =
     (case svc of
        Github \<Rightarrow> GithubService_request e method endpoint params (option_headers opts)
      | Suno \<Rightarrow> SunoService_request e method endpoint params (option_headers opts))"

definition reads_cache :: "service \<Rightarrow> options \<Rightarrow> bool" where
  "reads_cache svc opts = (case svc of Github \<Rightarrow> True | Suno \<Rightarrow> \<not> option_disableCache opts)"

definition rethrown :: "service \<Rightarrow> js_error \<Rightarrow> js_error" where
  "rethrown svc error =
     (case svc of Github \<Rightarrow> error | Suno \<Rightarrow> Error (''Suno API call failed: '' @ message error))"

definition updateApiLimit :: "service \<Rightarrow> env \<Rightarrow> tables \<Rightarrow> tables" where
  "updateApiLimit svc e db =
     (case svc of Github \<Rightarrow> GithubService_updateApiLimit e ''github'' db
                | Suno \<Rightarrow> SunoService_updateApiLimit e db)"

text \<open>
  The text that \<open>#generateRequestHash\<close> builds and hashes, the template literal
  \<open>${this.serviceName}:${method}:${endpoint}:${JSON.stringify(params)}\<close>.
\<close>

definition request_message :: "service \<Rightarrow> string \<Rightarrow> string \<Rightarrow> json \<Rightarrow> string" where
  "request_message svc method endpoint params =
     service_name svc @ '':'' @ method @ '':'' @ endpoint @ '':'' @ stringify params"

text \<open>
  The vocabulary of the claims: an expiry that is null or in the future, the counter
  \<open>requests_used\<close> of a service, an invocation that gets as far as the live call (the
  lookup is skipped, or it succeeded and found no succeeded fresh row), and the tables
  after the request was sent, after a success was stored and after a failure was stored.
\<close>

definition fresh :: "int \<Rightarrow> ApiCall \<Rightarrow> bool" where
  "fresh now c = (case expires_at c of None \<Rightarrow> True | Some t \<Rightarrow> now < t)"

definition used :: "tables \<Rightarrow> service \<Rightarrow> int option" where
  "used db svc = map_option requests_used (apiLimits db (service_name svc))"

definition reaches_live :: "service \<Rightarrow> env \<Rightarrow> string \<Rightarrow> string \<Rightarrow> json \<Rightarrow> options \<Rightarrow> tables \<Rightarrow> bool" where
  "reaches_live svc e method endpoint params opts db =
     (\<not> reads_cache svc opts \<or>
      (find_error e = None \<and>
       (case apiCalls db (generateRequestHash svc method endpoint params) of
          None \<Rightarrow> True
        | Some c \<Rightarrow> \<not> (is_success c \<and> fresh (check_time e) c))))"

definition sent :: "service \<Rightarrow> env \<Rightarrow> string \<Rightarrow> string \<Rightarrow> json \<Rightarrow> options \<Rightarrow> tables \<Rightarrow> tables" where
  "sent svc e method endpoint params opts db =
     db\<lparr>live_calls := live_calls db @ [live_request svc e method endpoint params opts]\<rparr>"

definition success_row :: "service \<Rightarrow> env \<Rightarrow> string \<Rightarrow> string \<Rightarrow> json \<Rightarrow> options \<Rightarrow> http_response \<Rightarrow> tables \<Rightarrow> tables" where
  "success_row svc e method endpoint params opts resp db =
     db\<lparr>apiCalls := record_success e (service_name svc) method endpoint
            (case svc of Github \<Rightarrow> if truthy params then params else JObj [] | Suno \<Rightarrow> params)
            (generateRequestHash svc method endpoint params) resp
            (expiry e (option_cacheHours opts)) (apiCalls db)\<rparr>"

definition failure_row :: "service \<Rightarrow> env \<Rightarrow> string \<Rightarrow> string \<Rightarrow> json \<Rightarrow> js_error \<Rightarrow> tables \<Rightarrow> tables" where
  "failure_row svc e method endpoint params error db =
     db\<lparr>apiCalls := record_failure e (service_name svc) method endpoint
            (case svc of Github \<Rightarrow> if truthy params then params else JObj [] | Suno \<Rightarrow> params)
            (generateRequestHash svc method endpoint params) error (apiCalls db)\<rparr>"

text \<open>
  What a status poll does, for the endpoint \<open>endpoint\<close>: it sends the request whatever
  the tables hold, and when the call and the \<open>upsert\<close> succeed it returns the new body,
  leaves a succeeded row with that body and a new expiry under the fingerprint, and (when
  the counter can be written) counts one more request.
\<close>

definition poll_is_live ::
  "string \<Rightarrow> env \<Rightarrow> string \<Rightarrow> options \<Rightarrow> tables \<Rightarrow> (js_error + json) \<times> tables \<Rightarrow> bool" where
  "poll_is_live endpoint e taskId opts db out =
     (let params = JObj [(''taskId'', JStr taskId)];
          h = generateRequestHash Suno ''GET'' endpoint params;
          request = live_request Suno e ''GET'' endpoint params opts
      in live_calls (snd out) = live_calls db @ [request]
         \<and> (\<forall>resp. axios e request = Inr resp \<and> upsert_error e = None \<longrightarrow>
               fst out = Inr (resp_data resp)
               \<and> (\<exists>r. apiCalls (snd out) h = Some r \<and> is_success r
                      \<and> response r = resp_data resp
                      \<and> expires_at r = expiry e (option_cacheHours opts))
               \<and> (limit_error e = None \<longrightarrow>
                     used (snd out) Suno = Some (case used db Suno of None \<Rightarrow> 1 | Some n \<Rightarrow> n + 1))))"

text \<open>
  A reply is recorded when some succeeded row of \<open>apiCalls\<close> holds it as its response;
  \<open>all_replies\<close> says that every row holds the same response.
\<close>

definition recorded :: "json \<Rightarrow> tables \<Rightarrow> bool" where
  "recorded reply db = (\<exists>h row. apiCalls db h = Some row \<and> is_success row \<and> response row = reply)"

definition all_replies :: "json \<Rightarrow> tables \<Rightarrow> bool" where
  "all_replies reply db = (\<forall>h row. apiCalls db h = Some row \<longrightarrow> response row = reply)"

section \<open>KaraokeService\<close>

subsection \<open>chunkTextByTokens\<close>

text \<open>
  The \<open>while\<close> loop of \<open>chunkTextByTokens\<close> with its variables \<open>startIndex\<close> and
  \<open>chunks\<close>. With \<open>maxChars \<le> 0\<close> the source never leaves the loop on a non-empty text,
  so the loop is a partial function and \<open>None\<close> stands for not returning.
\<close>

partial_function (option) chunkLoop :: "string \<Rightarrow> int \<Rightarrow> int \<Rightarrow> string list \<Rightarrow> string list option" where
  "chunkLoop text maxChars startIndex chunks =
     (if startIndex < int (length text) then
        (let endIndex = min (startIndex + maxChars) (int (length text));
             chunk = js_slice text startIndex endIndex
         in chunkLoop text maxChars endIndex (chunks @ [chunk]))
      else Some chunks)"

definition chunkTextByTokens :: "string \<Rightarrow> int \<Rightarrow> string list option" where
  "chunkTextByTokens text maxTokens =
     (let approxCharsPerToken = 4;
          maxChars = maxTokens * approxCharsPerToken
      in chunkLoop text maxChars 0 [])"

declare chunkLoop.simps [code]

subsection \<open>The callback handlers\<close>

text \<open>
  \<open>handleSunoCallback\<close> and \<open>handleSunoCallbackLyrics\<close>. \<open>attachTracks\<close> is the loop over
  \<open>savedFiles\<close>; every entry comes from \<open>downloadAndSaveSongFromCallback\<close>, which sets
  \<open>trackInfo\<close> and \<open>attachment\<close> and never \<open>filePath\<close>, so the loop always takes its second
  branch with an attachment present.
\<close>

definition audioFile_of :: "Song \<Rightarrow> saved_file \<Rightarrow> AudioFile" where
  "audioFile_of songRecord info =
     (case info of (trackInfo, attachment) \<Rightarrow>
        \<lparr>filename = (if att_slug attachment = [] then number_to_string (att_id attachment) @ ''.mp3''
                     else att_slug attachment),
         url = att_url attachment,
         file_type = ''mp3'',
         mime_type = (if att_mime attachment = [] then ''audio/mpeg'' else att_mime attachment),
         is_vocal = True,
         is_original = True,
         song_id = song_pk songRecord,
         attachment_id = Some (att_id attachment),
         suno_audio_id = (if track_id trackInfo = Some [] then None else track_id trackInfo)\<rparr>)"

fun attachTracks :: "Song option \<Rightarrow> saved_file list \<Rightarrow> Attachment list \<Rightarrow> tables \<Rightarrow> Attachment list \<times> tables" where
  "attachTracks songRecord [] doAttachments db = (doAttachments, db)"
| "attachTracks songRecord (info # infos) doAttachments db =
     attachTracks songRecord infos (doAttachments @ [snd info])
       (case songRecord of
          None \<Rightarrow> db
        | Some s \<Rightarrow> db\<lparr>audioFiles := audioFiles db @ [audioFile_of s info]\<rparr>)"

record callback_result =
  res_taskId :: string
  res_callbackType :: string
  res_savedFiles :: "saved_file list"
  res_doAttachments :: "Attachment list"

definition song_update :: "int \<Rightarrow> (Song \<Rightarrow> Song) \<Rightarrow> Song list \<Rightarrow> Song list" where
  "song_update pk f rows = map (\<lambda>row. if song_pk row = pk then f row else row) rows"

definition KaraokeService_handleSunoCallback ::
  "env \<Rightarrow> callback_data option \<Rightarrow> tables \<Rightarrow> (js_error + callback_result) \<times> tables" where
  "KaraokeService_handleSunoCallback e callbackData db =
     (case
        (case callbackData of
           None \<Rightarrow> (Inl (Error no_data_field), db)
         | Some d \<Rightarrow>
             (case SunoService_downloadAndSaveSongFromCallback e callbackData db of
                (Inl error, db1) \<Rightarrow> (Inl error, db1)
              | (Inr savedFiles, db1) \<Rightarrow>
                  (let sunoTaskId = task_id d;
                       cbType = (case callbackType d of None \<Rightarrow> [] | Some t \<Rightarrow> t);
                       songRecord = find (\<lambda>s. suno_task_id s = Some sunoTaskId) (songs db1);
                       db2 =
                         (case songRecord of
                            None \<Rightarrow> db1\<lparr>warnings := warnings db1 @ [NoSongRecord sunoTaskId]\<rparr>
                          | Some s \<Rightarrow>
                              if cbType = ''complete'' then
                                db1\<lparr>songs := song_update (song_pk s)
                                       (\<lambda>row. row\<lparr>status := ''completed'',
                                                  completed_at := Some (callback_time e),
                                                  song_updated_at := callback_time e\<rparr>)
                                       (songs db1)\<rparr>
                              else db1)
                   in case attachTracks songRecord savedFiles [] db2 of
                        (doAttachments, db3) \<Rightarrow>
                          (Inr \<lparr>res_taskId = sunoTaskId, res_callbackType = cbType,
                                res_savedFiles = savedFiles, res_doAttachments = doAttachments\<rparr>,
                           db3))))
      of
        (Inl error, db') \<Rightarrow> (Inl (Error (''Error handling Suno callback: '' @ message error)), db')
      | (Inr result, db') \<Rightarrow> (Inr result, db'))"

definition KaraokeService_handleSunoCallbackLyrics ::
  "env \<Rightarrow> callback_data option \<Rightarrow> tables \<Rightarrow> (js_error + callback_result) \<times> tables" where
  "KaraokeService_handleSunoCallbackLyrics e callbackData db =
     (case callbackData of
        None \<Rightarrow>
          (Inl (Error (''Error handling Suno lyrics callback: ''
                       @ no_data_field)), db)
      | Some d \<Rightarrow>
          (let sunoTaskId = task_id d;
               cbType = (case callbackType d of None \<Rightarrow> ''lyrics'' | Some t \<Rightarrow> if t = [] then ''lyrics'' else t);
               songRecord = find (\<lambda>s. suno_task_id s = Some sunoTaskId) (songs db);
               db1 =
                 (case songRecord of
                    None \<Rightarrow> db\<lparr>warnings := warnings db @ [NoSongRecord sunoTaskId]\<rparr>
                  | Some s \<Rightarrow>
                      (case improved_lyrics d of
                         None \<Rightarrow> db
                       | Some improvedLyrics \<Rightarrow>
                           if improvedLyrics = [] then db
                           else db\<lparr>songs := song_update (song_pk s)
                                  (\<lambda>row. row\<lparr>lyrics := improvedLyrics,
                                             song_updated_at := callback_time e\<rparr>)
                                  (songs db)\<rparr>))
           in (Inr \<lparr>res_taskId = sunoTaskId, res_callbackType = cbType,
                    res_savedFiles = [], res_doAttachments = []\<rparr>, db1)))"

subsection \<open>generateSongFromRepo\<close>

text \<open>
  Steps 1 to 10 of \<open>generateSongFromRepo\<close> read the repository, fill the embedding store
  and ask the language model; what they hand on is the record \<open>analysis\<close>. The definition
  below is the function from step 11 on (the two checks of the options at its start
  included), run on the tables as they are when step 11 begins: the submission to Suno,
  the checks of the reply, the cover image, and the new song row. \<open>run_env\<close> gives each of
  the calls its own environment.

  \<open>generateCoverImage\<close> throws its first error outside its \<open>try\<close> block and wraps every
  other one. Prisma refuses a \<open>suno_task_id\<close> that is not a string when the song is
  created; by then the repository row has been looked up or created.
\<close>

definition AIService_generateCoverImage :: "env \<Rightarrow> string \<Rightarrow> js_error + Attachment" where
  "AIService_generateCoverImage e prompt =
     (if prompt = [] then Inl (Error ''Prompt de imagen requerido'')
      else
        (case openai_image e prompt of
           Inl error \<Rightarrow> Inl (Error (''Error generando cover image: '' @ message error))
         | Inr attachment \<Rightarrow> Inr attachment))"

definition next_pk :: "int list \<Rightarrow> int" where
  "next_pk pks = fold max pks 0 + 1"

definition KaraokeService_findOrCreateRepoId ::
  "string \<Rightarrow> string \<Rightarrow> string \<Rightarrow> tables \<Rightarrow> int \<times> tables" where
  "KaraokeService_findOrCreateRepoId owner repo repoUrl db =
     (case find (\<lambda>r. full_name r = owner @ ''/'' @ repo) (repositories db) of
        Some existing \<Rightarrow> (repo_pk existing, db)
      | None \<Rightarrow>
          (let pk = next_pk (map repo_pk (repositories db))
           in (pk, db\<lparr>repositories := repositories db @
                    [\<lparr>repo_pk = pk, repo_owner = owner, repo_name = repo,
                      full_name = owner @ ''/'' @ repo, repo_url = repoUrl\<rparr>]\<rparr>)))"

record song_request =
  repoUrl :: string
  musicStyle :: string
  instrumental_only :: bool
  callbackUrl :: string

record analysis =
  owner :: string
  repo :: string
  timeRange_start :: json
  timeRange_end :: json
  commitCount :: int
  songLyrics :: string
  songTitle :: string

record song_result =
  out_owner :: string
  out_repo :: string
  out_url :: string
  out_total :: int
  out_title :: string
  out_lyrics :: string
  out_taskId :: string
  out_instrumental :: bool

definition coverPrompt :: "string \<Rightarrow> string \<Rightarrow> string" where
  "coverPrompt ttl sty =
     ''Genera una imagen que represente el titulo de la cancion '' @ [CHR 0x22] @ ttl @ [CHR 0x22]
     @ '' en un estilo comico sin incluir ninguna palabras olo una imagen mnuy graciosa representativa''
     @ '' del nombre de la cacnion y del estilo de musica '' @ [CHR 0x22] @ sty @ [CHR 0x22] @ ''.''"

record run_env =
  lyrics_env :: env
  audio_env :: env
  cover_env :: env
  song_time :: int

definition submit_generation ::
  "run_env \<Rightarrow> song_request \<Rightarrow> analysis \<Rightarrow> tables \<Rightarrow> (js_error + json) \<times> tables" where
  "submit_generation r opts a db =
     (if instrumental_only opts then
        SunoService_generateAudio (audio_env r)
          \<lparr>ap_prompt = ''A '' @ musicStyle opts @ '' song about code and software development'',
           ap_style = Some (musicStyle opts), ap_title = Some (songTitle a), ap_customMode = True,
           ap_instrumental = True, ap_model = ''V3_5'', ap_callBackUrl = callbackUrl opts\<rparr> db
      else
        (case SunoService_generateLyrics (lyrics_env r) (songLyrics a)
                (callbackUrl opts @ ''/karaoke/callback/lyrics'') db of
           (Inl error, db1) \<Rightarrow> (Inl error, db1)
         | (Inr _, db1) \<Rightarrow>
             SunoService_generateAudio (audio_env r)
               \<lparr>ap_prompt = songLyrics a, ap_style = Some (musicStyle opts),
                ap_title = Some (songTitle a), ap_customMode = True, ap_instrumental = False,
                ap_model = ''V3_5'', ap_callBackUrl = callbackUrl opts @ ''/karaoke/callback''\<rparr> db1))"

definition no_data_found :: string where
  "no_data_found = ''No '' @ [CHR 0x22] @ ''data'' @ [CHR 0x22]
     @ '' found in response from SunoService.generateAudio()''"

definition no_taskId_found :: string where
  "no_taskId_found = ''No '' @ [CHR 0x22] @ ''taskId'' @ [CHR 0x22]
     @ '' found in SunoService response data''"

definition invalid_suno_task_id :: string where
  "invalid_suno_task_id = ''Argument suno_task_id: Invalid value provided. Expected String or Null.''"

definition store_song ::
  "run_env \<Rightarrow> song_request \<Rightarrow> analysis \<Rightarrow> string \<Rightarrow> Attachment \<Rightarrow> tables \<Rightarrow> tables" where
  "store_song r opts a sunoTaskId coverAttachment db =
     (case KaraokeService_findOrCreateRepoId (owner a) (repo a) (repoUrl opts) db of
        (repoId, db1) \<Rightarrow>
          db1\<lparr>songs := songs db1 @
            [\<lparr>song_pk = next_pk (map song_pk (songs db1)),
              title = songTitle a,
              lyrics = songLyrics a,
              style = Some (musicStyle opts),
              instrumental = instrumental_only opts,
              suno_task_id = Some sunoTaskId,
              cover_image_url =
                (if att_location coverAttachment = [] then None else Some (att_location coverAttachment)),
              status = ''pending'',
              repository_id = repoId,
              time_range = JObj [(''start'', timeRange_start a), (''end'', timeRange_end a)],
              commit_count = commitCount a,
              song_prompt = Some (songLyrics a),
              song_created_at = song_time r,
              song_updated_at = song_time r,
              completed_at = None\<rparr>]\<rparr>)"

definition KaraokeService_generateSongFromRepo ::
  "run_env \<Rightarrow> song_request \<Rightarrow> analysis \<Rightarrow> tables \<Rightarrow> (js_error + song_result) \<times> tables" where
  "KaraokeService_generateSongFromRepo r opts a db =
     (case
        (if repoUrl opts = [] then (Inl (Error ''Repository URL is required''), db)
         else if callbackUrl opts = [] then (Inl (Error ''Callback URL is required for Suno API''), db)
         else case submit_generation r opts a db of
           (Inl error, db1) \<Rightarrow> (Inl error, db1)
         | (Inr songGenerationResponse, db1) \<Rightarrow>
             (case (if truthy songGenerationResponse then property songGenerationResponse ''data''
                    else None) of
                None \<Rightarrow> (Inl (Error no_data_found), db1)
              | Some d \<Rightarrow>
                  if \<not> truthy d then (Inl (Error no_data_found), db1)
                  else
                    (case property d ''taskId'' of
                       None \<Rightarrow> (Inl (Error no_taskId_found), db1)
                     | Some taskId \<Rightarrow>
                         if \<not> truthy taskId then (Inl (Error no_taskId_found), db1)
                         else
                           (case AIService_generateCoverImage (cover_env r)
                                   (coverPrompt (songTitle a) (musicStyle opts)) of
                              Inl error \<Rightarrow> (Inl error, db1)
                            | Inr coverAttachment \<Rightarrow>
                                (case taskId of
                                   JStr sunoTaskId \<Rightarrow>
                                     (Inr \<lparr>out_owner = owner a, out_repo = repo a,
                                           out_url = repoUrl opts, out_total = commitCount a,
                                           out_title = songTitle a, out_lyrics = songLyrics a,
                                           out_taskId = sunoTaskId,
                                           out_instrumental = instrumental_only opts\<rparr>,
                                      store_song r opts a sunoTaskId coverAttachment db1)
                                 | _ \<Rightarrow>
                                     (Inl (Error invalid_suno_task_id),
                                      snd (KaraokeService_findOrCreateRepoId (owner a) (repo a)
                                             (repoUrl opts) db1)))))))
      of
        (Inl error, db') \<Rightarrow>
          (Inl (Error (''Error generating song from repository: '' @ message error)), db')
      | (Inr result, db') \<Rightarrow> (Inr result, db'))"

subsection \<open>checkSongStatus\<close>

record status_result =
  st_taskId :: string
  st_songStatus :: "json option"
  st_details :: json

definition type_error :: "string \<Rightarrow> string \<Rightarrow> string" where
  "type_error what key =
     ''Cannot read properties of '' @ what @ '' (reading '' @ [CHR 0x27] @ key @ [CHR 0x27] @ '')''"

definition KaraokeService_checkSongStatus ::
  "env \<Rightarrow> string \<Rightarrow> tables \<Rightarrow> (js_error + status_result) \<times> tables" where
  "KaraokeService_checkSongStatus e taskId db =
     (case SunoService_getTaskDetails e taskId (no_options\<lparr>disableCache := Some True\<rparr>) db of
        (Inl error, db') \<Rightarrow> (Inl (Error (''Error checking song status: '' @ message error)), db')
      | (Inr taskDetails, db') \<Rightarrow>
          (case (if taskDetails = JNull then None else Some (property taskDetails ''data'')) of
             None \<Rightarrow>
               (Inl (Error (''Error checking song status: '' @ type_error ''null'' ''data'')), db')
           | Some None \<Rightarrow>
               (Inl (Error (''Error checking song status: '' @ type_error ''undefined'' ''status'')), db')
           | Some (Some d) \<Rightarrow>
               if d = JNull then
                 (Inl (Error (''Error checking song status: '' @ type_error ''null'' ''status'')), db')
               else
                 (Inr \<lparr>st_taskId = taskId, st_songStatus = property d ''status'',
                       st_details = d\<rparr>, db')))"

text \<open>Two states of the tables with the same song and audio-file rows.\<close>

definition same_songs :: "tables \<Rightarrow> tables \<Rightarrow> bool" where
  "same_songs db db' = (songs db' = songs db \<and> audioFiles db' = audioFiles db)"

section \<open>AIService.adjustContent\<close>

text \<open>
  \<open>estimateTokens\<close> calls \<open>promptTokensEstimate\<close> of the package \<open>openai-chat-tokens\<close>; it
  is a parameter here, any function from the messages to a number of tokens.
  \<open>adjustLoop\<close> is the \<open>while\<close> loop on its variables \<open>iteration\<close>, \<open>system\<close>,
  \<open>history\<close>, \<open>prompt\<close> and \<open>currentTokens\<close>; \<open>Math.ceil (tokensOver * 0.5)\<close> on an
  integer is \<open>(tokensOver + 1) div 2\<close>. The loop counter is kept in the result, so that
  the exit taken can be read off it.
\<close>

record chat_message =
  role :: string
  content :: string

type_synonym estimator = "chat_message list \<Rightarrow> int"

definition chat_messages :: "string \<Rightarrow> chat_message list \<Rightarrow> string \<Rightarrow> chat_message list" where
  "chat_messages system history prompt =
     \<lparr>role = ''system'', content = system\<rparr> # history @ [\<lparr>role = ''user'', content = prompt\<rparr>]"

definition maxIterations :: nat where
  "maxIterations = 100"

record adjusted =
  iteration :: nat
  system :: string
  history :: "chat_message list"
  prompt :: string

function adjustLoop :: "estimator \<Rightarrow> int \<Rightarrow> int \<Rightarrow> adjusted \<Rightarrow> adjusted" where
  "adjustLoop estimateTokens targetTokens currentTokens st =
     (if currentTokens > targetTokens then
        (let st = st\<lparr>iteration := iteration st + 1\<rparr> in
         if iteration st > maxIterations then st
         else
           (let tokensOver = currentTokens - targetTokens;
                chunkSize = (tokensOver + 1) div 2;
                approxCharsPerToken = 4;
                charsToRemove = chunkSize * approxCharsPerToken
            in
              if length (history st) > 1 then
                (let st = st\<lparr>history := tl (history st)\<rparr>
                 in adjustLoop estimateTokens targetTokens
                      (estimateTokens (chat_messages (system st) (history st) (prompt st))) st)
              else if length (system st) > 50 then
                (let trimLength = min charsToRemove (int (length (system st)) - 50);
                     st = st\<lparr>system := js_slice (system st) 0 (- trimLength)\<rparr>
                 in adjustLoop estimateTokens targetTokens
                      (estimateTokens (chat_messages (system st) (history st) (prompt st))) st)
              else if length (prompt st) > 50 then
                (let trimLength = min charsToRemove (int (length (prompt st)) - 50);
                     st = st\<lparr>prompt := js_slice (prompt st) 0 (- trimLength)\<rparr>
                 in adjustLoop estimateTokens targetTokens
                      (estimateTokens (chat_messages (system st) (history st) (prompt st))) st)
              else st))
      else st)"
  by pat_completeness auto
termination
  by (relation "measure (\<lambda>(e, t, c, st). Suc maxIterations - iteration st)") auto

declare adjustLoop.simps [simp del]

definition adjustContent :: "estimator \<Rightarrow> string \<Rightarrow> chat_message list \<Rightarrow> string \<Rightarrow> int \<Rightarrow> adjusted" where
  "adjustContent estimateTokens sys hist prmpt contextWindow =
     (let targetTokens = contextWindow;
          currentTokens = estimateTokens (chat_messages sys hist prmpt)
      in adjustLoop estimateTokens targetTokens currentTokens
           \<lparr>iteration = 0, system = sys, history = hist, prompt = prmpt\<rparr>)"

text \<open>
  The three ways the loop ends: the estimate fits the budget; nothing is left to trim
  (at most one history entry, system prompt and user prompt at most 50 characters); the
  counter has passed \<open>maxIterations\<close>.
\<close>

definition within_budget :: "estimator \<Rightarrow> int \<Rightarrow> adjusted \<Rightarrow> bool" where
  "within_budget estimateTokens targetTokens r =
     (estimateTokens (chat_messages (system r) (history r) (prompt r)) \<le> targetTokens)"

definition at_floor :: "adjusted \<Rightarrow> bool" where
  "at_floor r = (length (history r) \<le> 1 \<and> length (system r) \<le> 50 \<and> length (prompt r) \<le> 50)"

definition cap_exhausted :: "adjusted \<Rightarrow> bool" where
  "cap_exhausted r = (iteration r = Suc maxIterations)"

definition outcome_ok :: "estimator \<Rightarrow> int \<Rightarrow> adjusted \<Rightarrow> bool" where
  "outcome_ok est targetTokens r =
     (iteration r \<le> Suc maxIterations \<and>
      (within_budget est targetTokens r \<or> at_floor r \<or> cap_exhausted r))"

section \<open>Sample data\<close>

text \<open>The concrete inputs of the witnesses and counterexamples.\<close>

definition empty_tables :: tables where
  "empty_tables = \<lparr>apiCalls = Map.empty, apiLimits = Map.empty, repositories = [], songs = [],
     audioFiles = [], live_calls = [], warnings = []\<rparr>"

definition pending_reply :: json where
  "pending_reply = JObj [(''code'', JNum 200),
     (''data'', JObj [(''taskId'', JStr ''T1''), (''status'', JStr ''PENDING'')])]"

definition success_reply :: json where
  "success_reply = JObj [(''code'', JNum 200),
     (''data'', JObj [(''taskId'', JStr ''T1''), (''status'', JStr ''SUCCESS'')])]"

definition sample_attachment :: Attachment where
  "sample_attachment = \<lparr>att_id = 7, att_slug = ''song.mp3'', att_url = ''https://cdn.example/song.mp3'',
     att_mime = ''audio/mpeg'', att_location = ''https://cdn.example/song.mp3''\<rparr>"

definition sample_env :: env where
  "sample_env = \<lparr>GITHUB_API_TOKEN = None, SUNO_API_KEY = Some ''key'',
     check_time = 1000, startTime = 1001, endTime = 1002, store_time = 1003, failure_time = 1004,
     find_error = None,
     axios = (\<lambda>cfg. Inr \<lparr>resp_status = 200, resp_data = success_reply\<rparr>),
     upsert_error = None, limit_error = None, failure_upsert_error = None,
     createAttachmentFromUrl = (\<lambda>u. Inr sample_attachment),
     openai_image = (\<lambda>p. Inl (Error ''image service unavailable'')),
     callback_time = 2000\<rparr>"

definition cached_row :: "service \<Rightarrow> string \<Rightarrow> string \<Rightarrow> json \<Rightarrow> ApiCall" where
  "cached_row svc method endpoint params =
     \<lparr>call_service = service_name svc, call_endpoint = endpoint, call_method = method,
      call_params = params, request_hash = generateRequestHash svc method endpoint params,
      response = pending_reply, status_code = Some 200, is_success = True, error_message = None,
      request_time = 500, response_time = Some 501, duration = Some 1, expires_at = Some 5000,
      created_at = 502, updated_at = 502\<rparr>"

definition cached_tables :: "service \<Rightarrow> string \<Rightarrow> string \<Rightarrow> json \<Rightarrow> tables" where
  "cached_tables svc method endpoint params =
     empty_tables\<lparr>apiCalls := [generateRequestHash svc method endpoint params
                                  \<mapsto> cached_row svc method endpoint params],
                  apiLimits := [service_name svc \<mapsto>
                     \<lparr>limit_service = service_name svc, requests_limit = 1000, requests_used = 5,
                      requests_reset = 4000, is_active = True, limit_created_at = 400,
                      limit_updated_at = 502\<rparr>]\<rparr>"

definition poll_options :: options where
  "poll_options = no_options\<lparr>disableCache := Some True\<rparr>"

definition timeout_env :: env where
  "timeout_env = sample_env\<lparr>axios := (\<lambda>cfg. Inl (Error ''timeout of 5000ms exceeded''))\<rparr>"

definition outage_env :: env where
  "outage_env = sample_env\<lparr>upsert_error := Some (Error ''database unavailable'')\<rparr>"

definition complete_callback :: callback_data where
  "complete_callback = \<lparr>task_id = ''T1'', callbackType = Some ''complete'',
     tracks = Some [\<lparr>track_id = Some ''a1'', audio_url = Some ''https://cdn.suno.example/a1.mp3''\<rparr>],
     improved_lyrics = None\<rparr>"

definition pending_song :: Song where
  "pending_song = \<lparr>song_pk = 1, title = ''Merge at Midnight'', lyrics = ''Commit by commit we ship the code'',
     style = Some ''Rock'', instrumental = False, suno_task_id = Some ''T1'', cover_image_url = None,
     status = ''pending'', repository_id = 1, time_range = JNull, commit_count = 3,
     song_prompt = None, song_created_at = 900, song_updated_at = 900, completed_at = None\<rparr>"

definition first_arrival :: tables where
  "first_arrival =
     snd (KaraokeService_handleSunoCallback sample_env (Some complete_callback)
            (empty_tables\<lparr>songs := [pending_song]\<rparr>))"

definition second_arrival :: tables where
  "second_arrival =
     snd (KaraokeService_handleSunoCallback (sample_env\<lparr>callback_time := 3000\<rparr>)
            (Some complete_callback) first_arrival)"

definition sample_run :: run_env where
  "sample_run = \<lparr>lyrics_env = sample_env, audio_env = sample_env, cover_env = sample_env,
     song_time = 1500\<rparr>"

definition sample_request :: song_request where
  "sample_request = \<lparr>repoUrl = ''https://github.com/o/r'', musicStyle = ''Rock'',
     instrumental_only = False, callbackUrl = ''https://api.example''\<rparr>"

definition sample_analysis :: analysis where
  "sample_analysis = \<lparr>owner = ''o'', repo = ''r'', timeRange_start = JStr ''2025-03-01'',
     timeRange_end = JStr ''2025-03-07'', commitCount = 3,
     songLyrics = ''Commit by commit we ship the code'', songTitle = ''Merge at Midnight''\<rparr>"

definition after_submit :: tables where
  "after_submit = snd (submit_generation sample_run sample_request sample_analysis empty_tables)"

text \<open>
  A callback that carries no track array, and an environment in which the upload service
  cannot fetch the audio file.
\<close>

definition trackless_callback :: callback_data where
  "trackless_callback = \<lparr>task_id = ''T9'', callbackType = Some ''text'', tracks = None,
     improved_lyrics = None\<rparr>"

definition upload_failure_env :: env where
  "upload_failure_env =
     sample_env\<lparr>createAttachmentFromUrl := (\<lambda>u. Inl (Error ''connect ETIMEDOUT''))\<rparr>"

text \<open>
  An estimator for the counterexample of the trimming loop: four tokens for every message
  and one for every four characters of its content. The history is 1200 short messages.
\<close>

definition sample_estimate :: estimator where
  "sample_estimate ms = (\<Sum>m\<leftarrow>ms. 4 + (int (length (content m)) + 3) div 4)"

definition chatty_history :: "chat_message list" where
  "chatty_history = replicate 1200 \<lparr>role = ''user'', content = ''hello''\<rparr>"

definition hex_chars :: "char set" where
  "hex_chars = set ''0123456789abcdef''"

section \<open>Properties of the request fingerprint\<close>

lemma hex_digit_in: "hex_digit n \<in> hex_chars"
  unfolding hex_digit_def hex_chars_def by (rule nth_mem) simp

lemma hex_byte_facts: "length (hex_byte b) = 2" "set (hex_byte b) \<subseteq> hex_chars"
  by (simp_all add: hex_byte_def hex_digit_in)

lemma upt4: "[0..<4] = [0, 1, 2, 3]"
  by (simp add: upt_rec)

lemma hex_le_facts: "length (hex_le w) = 8" "set (hex_le w) \<subseteq> hex_chars"
  by (simp_all add: hex_le_def upt4 hex_byte_facts)

lemma md5_hex_facts: "length (md5_hex s) = 32" "set (md5_hex s) \<subseteq> hex_chars"
proof -
  obtain A B C D where st: "md5_blocks (0x67452301, 0xefcdab89, 0x98badcfe, 0x10325476)
             (le_words (md5_pad (map of_char s))) = (A, B, C, D)"
    by (metis prod_cases4)
  show "length (md5_hex s) = 32" by (simp add: md5_hex_def st hex_le_facts)
  show "set (md5_hex s) \<subseteq> hex_chars" by (simp add: md5_hex_def st hex_le_facts)
qed

subsection \<open>The serialized text determines the request\<close>

text \<open>
  Every escape sequence of \<open>escape_char\<close> is read back to its character, so a quoted
  string determines the string and what follows it.
\<close>

lemma below16: "(k::nat) < 16 \<Longrightarrow>
  k = 0 \<or> k = 1 \<or> k = 2 \<or> k = 3 \<or> k = 4 \<or> k = 5 \<or> k = 6 \<or> k = 7 \<or> k = 8 \<or> k = 9
  \<or> k = 10 \<or> k = 11 \<or> k = 12 \<or> k = 13 \<or> k = 14 \<or> k = 15"
  by presburger

lemma hex_value_digit_below: "k < 16 \<Longrightarrow> hex_value (hex_digit k) = k"
  by (drule below16) (auto simp: hex_value_def hex_digit_def)

lemma hex_value_digit: "hex_value (hex_digit k) = k mod 16"
proof -
  have "hex_digit k = hex_digit (k mod 16)" by (simp add: hex_digit_def)
  then show ?thesis using hex_value_digit_below[of "k mod 16"] by simp
qed

lemma is_digit_hex_digit: "k < 10 \<Longrightarrow> is_digit (hex_digit k)"
proof -
  assume "k < 10"
  then have "k = 0 \<or> k = 1 \<or> k = 2 \<or> k = 3 \<or> k = 4 \<or> k = 5 \<or> k = 6 \<or> k = 7 \<or> k = 8 \<or> k = 9"
    by presburger
  then show ?thesis by (auto simp: is_digit_def hex_digit_def)
qed

lemma unescape1_escape_char: "unescape1 (escape_char c @ X) = Some (c, X)"
proof -
  consider (q) "c = CHR 0x22" | (b) "c = CHR 0x5C" | (c8) "c = CHR 0x08" | (cC) "c = CHR 0x0C"
    | (cA) "c = CHR 0x0A" | (cD) "c = CHR 0x0D" | (c9) "c = CHR 0x09"
    | (ctl) "c \<noteq> CHR 0x22" "c \<noteq> CHR 0x5C" "c \<noteq> CHR 0x08" "c \<noteq> CHR 0x0C" "c \<noteq> CHR 0x0A"
        "c \<noteq> CHR 0x0D" "c \<noteq> CHR 0x09" "(of_char c :: nat) < 0x20"
    | (plain) "c \<noteq> CHR 0x22" "c \<noteq> CHR 0x5C" "c \<noteq> CHR 0x08" "c \<noteq> CHR 0x0C" "c \<noteq> CHR 0x0A"
        "c \<noteq> CHR 0x0D" "c \<noteq> CHR 0x09" "\<not> (of_char c :: nat) < 0x20"
    by blast
  then show ?thesis
  proof cases
    case ctl
    let ?n = "of_char c :: nat"
    have d: "?n div 16 < 16" using ctl(8) by simp
    have "16 * (?n div 16 mod 16) + ?n mod 16 = ?n" using d by simp
    then have "char_of (16 * hex_value (hex_digit (?n div 16)) + hex_value (hex_digit ?n)) = c"
      by (simp add: hex_value_digit)
    then show ?thesis using ctl
      by (simp add: escape_char_def unescape1_def)
  qed (simp_all add: escape_char_def unescape1_def)
qed

lemma escape_char_hd: "escape_char c \<noteq> [] \<and> hd (escape_char c) \<noteq> CHR 0x22"
  by (simp add: escape_char_def)

lemma escaped_body_inj:
  "concat (map escape_char s) @ CHR 0x22 # r = concat (map escape_char t) @ CHR 0x22 # r'
   \<Longrightarrow> s = t \<and> r = r'"
proof (induction s arbitrary: t)
  case Nil
  show ?case
  proof (cases t)
    case Nil
    with Nil.prems show ?thesis by simp
  next
    case (Cons d ds)
    have "hd (escape_char d @ concat (map escape_char ds) @ CHR 0x22 # r') = hd (escape_char d)"
      using escape_char_hd[of d] by simp
    with Nil.prems Cons escape_char_hd[of d] show ?thesis
      by (metis append_Nil concat.simps(1) concat.simps(2) list.map(1) list.map(2) list.sel(1) append_assoc)
  qed
next
  case (Cons c cs)
  show ?case
  proof (cases t)
    case Nil
    have "hd (escape_char c @ concat (map escape_char cs) @ CHR 0x22 # r) = hd (escape_char c)"
      using escape_char_hd[of c] by simp
    with Cons.prems Nil escape_char_hd[of c] show ?thesis
      by (metis append_Nil concat.simps(1) concat.simps(2) list.map(1) list.map(2) list.sel(1) append_assoc)
  next
    case (Cons d ds)
    from Cons.prems Cons
    have "escape_char c @ (concat (map escape_char cs) @ CHR 0x22 # r)
        = escape_char d @ (concat (map escape_char ds) @ CHR 0x22 # r')"
      by simp
    then have "unescape1 (escape_char c @ (concat (map escape_char cs) @ CHR 0x22 # r))
        = unescape1 (escape_char d @ (concat (map escape_char ds) @ CHR 0x22 # r'))"
      by simp
    then have "c = d" "concat (map escape_char cs) @ CHR 0x22 # r = concat (map escape_char ds) @ CHR 0x22 # r'"
      by (simp_all add: unescape1_escape_char)
    with Cons.IH[of ds] Cons show ?thesis by simp
  qed
qed

lemma quote_inj: "quote s @ r = quote t @ r' \<Longrightarrow> s = t \<and> r = r'"
  using escaped_body_inj[of s r t r'] by (simp add: quote_def)

text \<open>A decimal numeral determines the number.\<close>

lemma decimal_value_snoc: "decimal_value (ds @ [c]) = 10 * decimal_value ds + hex_value c"
  by (simp add: decimal_value_def)

lemma digits10_facts:
  "digits10 n \<noteq> [] \<and> (\<forall>c\<in>set (digits10 n). is_digit c) \<and> decimal_value (digits10 n) = n"
proof (induction n rule: digits10.induct)
  case (1 n)
  show ?case
  proof (cases "n < 10")
    case True
    then have "digits10 n = [hex_digit n]" by (subst digits10.simps) simp
    moreover have "hex_value (hex_digit n) = n" using True by (simp add: hex_value_digit)
    ultimately show ?thesis using True
      by (simp add: is_digit_hex_digit decimal_value_def)
  next
    case False
    then have eq: "digits10 n = digits10 (n div 10) @ [hex_digit (n mod 10)]"
      by (subst digits10.simps) simp
    have "hex_value (hex_digit (n mod 10)) = n mod 10" by (simp add: hex_value_digit)
    then show ?thesis using 1[OF False] eq
      by (simp add: decimal_value_snoc is_digit_hex_digit)
  qed
qed

lemma closes_not_digit: "closes r \<Longrightarrow> takeWhile is_digit r = []"
  by (cases r) (auto simp: closes_def is_digit_def)

lemma digits_block:
  "\<forall>c\<in>set ds. is_digit c \<Longrightarrow> closes r \<Longrightarrow> takeWhile is_digit (ds @ r) = ds"
  by (simp add: takeWhile_append2 closes_not_digit)

lemma digits10_inj:
  assumes "closes r" "closes r'" "digits10 a @ r = digits10 b @ r'"
  shows "a = b \<and> r = r'"
proof -
  have fa: "\<forall>c\<in>set (digits10 a). is_digit c" using digits10_facts[of a] by blast
  have fb: "\<forall>c\<in>set (digits10 b). is_digit c" using digits10_facts[of b] by blast
  have da: "takeWhile is_digit (digits10 a @ r) = digits10 a"
    by (rule digits_block[OF fa assms(1)])
  have db: "takeWhile is_digit (digits10 b @ r') = digits10 b"
    by (rule digits_block[OF fb assms(2)])
  have d: "digits10 a = digits10 b"
    using da db assms(3) by metis
  have va: "decimal_value (digits10 a) = a" using digits10_facts[of a] by blast
  have vb: "decimal_value (digits10 b) = b" using digits10_facts[of b] by blast
  have "a = b" using va vb d by metis
  moreover have "r = r'" using assms(3) d by (metis same_append_eq)
  ultimately show ?thesis by blast
qed

lemma digits10_hd: "is_digit (hd (digits10 n))"
  using digits10_facts[of n] by (cases "digits10 n") simp_all

lemma number_to_string_inj:
  assumes "closes r" "closes r'" "number_to_string i @ r = number_to_string j @ r'"
  shows "i = j \<and> r = r'"
proof -
  have nd: "\<not> is_digit (CHR ''-'')" by (simp add: is_digit_def)
  have ne: "\<And>n. digits10 n \<noteq> []" using digits10_facts by blast
  consider (nn) "i < 0" "j < 0" | (np) "i < 0" "\<not> j < 0" | (pn) "\<not> i < 0" "j < 0"
    | (pp) "\<not> i < 0" "\<not> j < 0" by blast
  then show ?thesis
  proof cases
    case nn
    then have "digits10 (nat (- i)) @ r = digits10 (nat (- j)) @ r'"
      using assms(3) by (simp add: number_to_string_def)
    from digits10_inj[OF assms(1,2) this] have "nat (- i) = nat (- j)" "r = r'" by simp_all
    with nn show ?thesis by linarith
  next
    case np
    then have "CHR ''-'' # digits10 (nat (- i)) @ r = digits10 (nat j) @ r'"
      using assms(3) by (simp add: number_to_string_def)
    then have "hd (digits10 (nat j) @ r') = CHR ''-''" by (metis list.sel(1))
    then have "hd (digits10 (nat j)) = CHR ''-''" using ne[of "nat j"] by simp
    then show ?thesis using digits10_hd[of "nat j"] nd by simp
  next
    case pn
    then have "digits10 (nat i) @ r = CHR ''-'' # digits10 (nat (- j)) @ r'"
      using assms(3) by (simp add: number_to_string_def)
    then have "hd (digits10 (nat i) @ r) = CHR ''-''" by (metis list.sel(1))
    then have "hd (digits10 (nat i)) = CHR ''-''" using ne[of "nat i"] by simp
    then show ?thesis using digits10_hd[of "nat i"] nd by simp
  next
    case pp
    then have "digits10 (nat i) @ r = digits10 (nat j) @ r'"
      using assms(3) by (simp add: number_to_string_def)
    from digits10_inj[OF assms(1,2) this] have "nat i = nat j" "r = r'" by simp_all
    with pp show ?thesis by linarith
  qed
qed

text \<open>
  The first character of a serialized value tells its kind, and a serialized value
  followed by a comma, a closing bracket or nothing determines the value: \<open>stringify\<close>
  is injective. The order of the keys of an object is part of the value.
\<close>

lemma not_digit:
  "\<not> is_digit (CHR ''n'')" "\<not> is_digit (CHR ''t'')" "\<not> is_digit (CHR ''f'')"
  "\<not> is_digit (CHR 0x22)" "\<not> is_digit (CHR ''['')" "\<not> is_digit (CHR ''{'')"
  "\<not> is_digit (CHR '','')" "\<not> is_digit (CHR '']'')" "\<not> is_digit (CHR ''}'')"
  "\<not> is_digit (CHR ''-'')"
  by (simp_all add: is_digit_def)

lemma is_digit_kind: "is_digit c \<Longrightarrow> char_kind c = 2"
  unfolding char_kind_def using not_digit by auto

lemma number_to_string_hd:
  "number_to_string i \<noteq> [] \<and> char_kind (hd (number_to_string i)) = 2"
proof (cases "i < 0")
  case True
  then show ?thesis by (simp add: number_to_string_def char_kind_def)
next
  case False
  then show ?thesis using digits10_facts[of "nat i"] digits10_hd[of "nat i"]
    by (simp add: number_to_string_def is_digit_kind)
qed

lemma quote_hd: "quote s \<noteq> [] \<and> hd (quote s) = CHR 0x22"
  by (simp add: quote_def)

lemma stringify_hd: "stringify v \<noteq> [] \<and> char_kind (hd (stringify v)) = json_kind v"
proof (cases v)
  case (JNum i)
  then show ?thesis using number_to_string_hd[of i] by simp
next
  case (JStr s)
  then show ?thesis using quote_hd[of s] by (simp add: char_kind_def)
qed (simp_all add: char_kind_def)

lemma join_with_Cons:
  "join_with sep (x # xs) = x @ (if xs = [] then [] else sep @ join_with sep xs)"
  by (cases xs) simp_all

lemma items_inj:
  assumes el: "\<And>x y t t'. x \<in> set xs \<Longrightarrow> closes t \<Longrightarrow> closes t' \<Longrightarrow> f x @ t = f y @ t'
                 \<Longrightarrow> x = y \<and> t = t'"
    and hd: "\<And>x. f x \<noteq> [] \<and> hd (f x) \<noteq> cl"
    and cl: "cl = CHR '']'' \<or> cl = CHR ''}''"
    and eq: "join_with '','' (map f xs) @ cl # r = join_with '','' (map f ys) @ cl # r'"
  shows "xs = ys \<and> r = r'"
  using el eq
proof (induction xs arbitrary: ys)
  case Nil
  show ?case
  proof (cases ys)
    case Nil
    with Nil.prems show ?thesis by simp
  next
    case (Cons y ys')
    from Nil.prems(2) Cons
    have "cl # r = f y @ ((if ys' = [] then [] else '','' @ join_with '','' (map f ys')) @ cl # r')"
      by (simp add: join_with_Cons)
    then have "hd (f y @ ((if ys' = [] then [] else '','' @ join_with '','' (map f ys')) @ cl # r')) = cl"
      by (metis list.sel(1))
    then show ?thesis using hd[of y] by simp
  qed
next
  case (Cons x xs)
  let ?T = "\<lambda>zs q. (if zs = [] then [] else '','' @ join_with '','' (map f zs)) @ cl # q"
  have cT: "\<And>zs q. closes (?T zs q)" using cl by (auto simp: closes_def)
  show ?case
  proof (cases ys)
    case Nil
    from Cons.prems(2) Nil
    have "f x @ ?T xs r = cl # r'"
      by (simp add: join_with_Cons)
    then have "hd (f x @ ?T xs r) = cl"
      by (metis list.sel(1))
    then show ?thesis using hd[of x] by simp
  next
    case (Cons y ys')
    from Cons.prems(2) Cons
    have e: "f x @ ?T xs r = f y @ ?T ys' r'"
      by (simp add: join_with_Cons)
    have xy: "x = y \<and> ?T xs r = ?T ys' r'"
      by (rule Cons.prems(1)[OF _ cT cT e]) simp
    have tl: "xs = ys' \<and> r = r'"
    proof (cases "xs = []")
      case True
      then show ?thesis using xy cl by (cases "ys' = []") auto
    next
      case False
      show ?thesis
      proof (cases "ys' = []")
        case True
        then show ?thesis using xy cl False by auto
      next
        case ne: False
        from xy False ne
        have "join_with '','' (map f xs) @ cl # r = join_with '','' (map f ys') @ cl # r'"
          by simp
        then have e': "join_with '','' (map f xs) @ cl # r = join_with '','' (map f ys') @ cl # r'" .
        have el': "\<And>x y t t'. x \<in> set xs \<Longrightarrow> closes t \<Longrightarrow> closes t' \<Longrightarrow> f x @ t = f y @ t'
                 \<Longrightarrow> x = y \<and> t = t'"
          using Cons.prems(1) by (meson list.set_intros(2))
        show ?thesis by (rule Cons.IH[of ys', OF el' e'])
      qed
    qed
    with xy Cons show ?thesis by simp
  qed
qed

lemma stringify_inj_closes:
  "closes r \<Longrightarrow> closes r' \<Longrightarrow> stringify v @ r = stringify v' @ r' \<Longrightarrow> v = v' \<and> r = r'"
proof (induction v arbitrary: v' r r')
  case JNull
  have "hd (stringify JNull @ r) = hd (stringify v' @ r')" using JNull.prems(3) by simp
  then have "json_kind v' = 0" using stringify_hd[of v'] by (simp add: char_kind_def)
  then have "v' = JNull" by (cases v') simp_all
  then show ?case using JNull.prems by simp
next
  case (JBool b)
  have "hd (stringify (JBool b) @ r) = hd (stringify v' @ r')" using JBool.prems(3) by simp
  then have "json_kind v' = 1" using stringify_hd[of v'] stringify_hd[of "JBool b"] by simp
  then obtain b' where v': "v' = JBool b'" by (cases v') simp_all
  show ?case using JBool.prems(3) v' by (cases b; cases b') simp_all
next
  case (JNum i)
  have "hd (stringify (JNum i) @ r) = hd (stringify v' @ r')" using JNum.prems(3) by simp
  then have "json_kind v' = 2" using stringify_hd[of v'] stringify_hd[of "JNum i"] by simp
  then obtain j where v': "v' = JNum j" by (cases v') simp_all
  show ?case using number_to_string_inj[OF JNum.prems(1,2), of i j] JNum.prems(3) v' by simp
next
  case (JStr s)
  have "hd (stringify (JStr s) @ r) = hd (stringify v' @ r')" using JStr.prems(3) by simp
  then have "json_kind v' = 3" using stringify_hd[of v'] stringify_hd[of "JStr s"] by simp
  then obtain t where v': "v' = JStr t" by (cases v') simp_all
  show ?case using quote_inj[of s r t r'] JStr.prems(3) v' by simp
next
  case (JArr xs)
  have "hd (stringify (JArr xs) @ r) = hd (stringify v' @ r')" using JArr.prems(3) by simp
  then have "json_kind v' = 4" using stringify_hd[of v'] stringify_hd[of "JArr xs"] by simp
  then obtain ys where v': "v' = JArr ys" by (cases v') simp_all
  have eq: "join_with '','' (map stringify xs) @ CHR '']'' # r
          = join_with '','' (map stringify ys) @ CHR '']'' # r'"
    using JArr.prems(3) v' by simp
  have hd: "\<And>x. stringify x \<noteq> [] \<and> hd (stringify x) \<noteq> CHR '']''"
  proof -
    fix x
    have "char_kind (hd (stringify x)) < 6" using stringify_hd[of x] by (cases x) simp_all
    then show "stringify x \<noteq> [] \<and> hd (stringify x) \<noteq> CHR '']''"
      using stringify_hd[of x] by (auto simp: char_kind_def)
  qed
  have "xs = ys \<and> r = r'"
    by (rule items_inj[where f = stringify and cl = "CHR '']''", OF _ hd _ eq])
       (use JArr.IH in blast, simp)
  then show ?case using v' by simp
next
  case (JObj kvs)
  have "hd (stringify (JObj kvs) @ r) = hd (stringify v' @ r')" using JObj.prems(3) by simp
  then have "json_kind v' = 5" using stringify_hd[of v'] stringify_hd[of "JObj kvs"] by simp
  then obtain kvs' where v': "v' = JObj kvs'" by (cases v') simp_all
  let ?f = "\<lambda>kv. quote (fst kv) @ '':'' @ stringify (snd kv)"
  have eq: "join_with '','' (map ?f kvs) @ CHR ''}'' # r
          = join_with '','' (map ?f kvs') @ CHR ''}'' # r'"
    using JObj.prems(3) v' by simp
  have hd: "\<And>x. ?f x \<noteq> [] \<and> hd (?f x) \<noteq> CHR ''}''"
    using quote_hd by simp
  have el: "\<And>x y t t'. x \<in> set kvs \<Longrightarrow> closes t \<Longrightarrow> closes t' \<Longrightarrow> ?f x @ t = ?f y @ t'
              \<Longrightarrow> x = y \<and> t = t'"
  proof -
    fix x y t t'
    assume x: "x \<in> set kvs" and t: "closes t" "closes t'" and e: "?f x @ t = ?f y @ t'"
    from e have "quote (fst x) @ (CHR '':'' # stringify (snd x) @ t)
               = quote (fst y) @ (CHR '':'' # stringify (snd y) @ t')" by simp
    from quote_inj[OF this]
    have k: "fst x = fst y" and e': "stringify (snd x) @ t = stringify (snd y) @ t'" by simp_all
    have "snd x \<in> Basic_BNFs.snds x" by (cases x) simp
    from JObj.IH[OF x this t e'] k show "x = y \<and> t = t'" by (simp add: prod_eq_iff)
  qed
  have "kvs = kvs' \<and> r = r'"
    by (rule items_inj[where f = ?f and cl = "CHR ''}''", OF el hd _ eq]) simp_all
  then show ?case using v' by simp
qed

lemma stringify_inj: "stringify v = stringify v' \<longleftrightarrow> v = v'"
  using stringify_inj_closes[of "[]" "[]" v v'] by (auto simp: closes_def)

text \<open>
  The hashed text determines the service, the method, the endpoint and the parameters,
  when neither the method nor the endpoint contains a colon.
\<close>

lemma colon_split:
  assumes "CHR '':'' \<notin> set a" "CHR '':'' \<notin> set b" "a @ CHR '':'' # x = b @ CHR '':'' # y"
  shows "a = b \<and> x = y"
proof -
  have na: "\<And>c. c \<in> set a \<Longrightarrow> c \<noteq> CHR '':''" using assms(1) by blast
  have nb: "\<And>c. c \<in> set b \<Longrightarrow> c \<noteq> CHR '':''" using assms(2) by blast
  have "takeWhile (\<lambda>c. c \<noteq> CHR '':'') (a @ CHR '':'' # x) = a"
    using takeWhile_append2[of a "\<lambda>c. c \<noteq> CHR '':''" "CHR '':'' # x", OF na] by simp
  moreover have "takeWhile (\<lambda>c. c \<noteq> CHR '':'') (b @ CHR '':'' # y) = b"
    using takeWhile_append2[of b "\<lambda>c. c \<noteq> CHR '':''" "CHR '':'' # y", OF nb] by simp
  ultimately have "a = b" using assms(3) by simp
  then show ?thesis using assms(3) by simp
qed

lemma service_name_inj: "service_name svc @ CHR '':'' # x = service_name svc' @ CHR '':'' # y
  \<Longrightarrow> svc = svc' \<and> x = y"
  by (cases svc; cases svc') (simp_all add: service_name_def)

lemma request_message_inj:
  assumes "CHR '':'' \<notin> set m" "CHR '':'' \<notin> set ep" "CHR '':'' \<notin> set m'" "CHR '':'' \<notin> set ep'"
  shows "request_message svc m ep ps = request_message svc' m' ep' ps'
         \<longleftrightarrow> svc = svc' \<and> m = m' \<and> ep = ep' \<and> ps = ps'"
proof
  assume "request_message svc m ep ps = request_message svc' m' ep' ps'"
  then have "service_name svc @ CHR '':'' # (m @ CHR '':'' # ep @ CHR '':'' # stringify ps)
           = service_name svc' @ CHR '':'' # (m' @ CHR '':'' # ep' @ CHR '':'' # stringify ps')"
    by (simp add: request_message_def)
  from service_name_inj[OF this]
  have s: "svc = svc'" and e1: "m @ CHR '':'' # (ep @ CHR '':'' # stringify ps)
           = m' @ CHR '':'' # (ep' @ CHR '':'' # stringify ps')" by simp_all
  from colon_split[OF assms(1,3) e1]
  have m: "m = m'" and e2: "ep @ CHR '':'' # stringify ps = ep' @ CHR '':'' # stringify ps'"
    by simp_all
  from colon_split[OF assms(2,4) e2] have "ep = ep'" "stringify ps = stringify ps'" by simp_all
  with s m show "svc = svc' \<and> m = m' \<and> ep = ep' \<and> ps = ps'" by (simp add: stringify_inj)
next
  assume "svc = svc' \<and> m = m' \<and> ep = ep' \<and> ps = ps'"
  then show "request_message svc m ep ps = request_message svc' m' ep' ps'" by simp
qed

lemma generateRequestHash_message:
  "generateRequestHash svc m ep ps = md5_hex (request_message svc m ep ps)"
  by (cases svc)
     (simp_all add: generateRequestHash_def GithubService_generateRequestHash_def
        SunoService_generateRequestHash_def request_message_def service_name_def)

text \<open>
  A colon in the method or the endpoint can move the boundary between the two: the
  fields are joined without escaping.
\<close>

lemma colon_in_endpoint:
  "request_message Github ''GET'' ''a:b'' ps = request_message Github ''GET:a'' ''b'' ps"
  by (simp add: request_message_def)

subsection \<open>The fingerprint\<close>

text \<open>
  C2, as amended. For a method and an endpoint without a colon, the fingerprint is the MD5
  digest, 32 hexadecimal digits, of the text \<open>service:method:endpoint:JSON\<close>, where
  \<open>JSON\<close> is the serialized parameters with the keys in the order they were inserted.
  That text is the same for two requests exactly when the service, the method, the
  endpoint and the parameters (keys, values and key order) are the same. So the same
  request always has the same fingerprint, and two requests that differ in any field, or
  only in the order of the keys, have the same fingerprint only if their two different
  texts have the same MD5 digest. The code does not sort or otherwise canonicalize the
  keys.
\<close>

theorem fingerprint_digest_of_request:
  assumes "CHR '':'' \<notin> set m" "CHR '':'' \<notin> set ep" "CHR '':'' \<notin> set m'" "CHR '':'' \<notin> set ep'"
  shows "generateRequestHash svc m ep ps = md5_hex (request_message svc m ep ps)
       \<and> length (generateRequestHash svc m ep ps) = 32
       \<and> set (generateRequestHash svc m ep ps) \<subseteq> hex_chars
       \<and> (request_message svc m ep ps = request_message svc' m' ep' ps'
            \<longleftrightarrow> svc = svc' \<and> m = m' \<and> ep = ep' \<and> ps = ps')
       \<and> (generateRequestHash svc m ep ps = generateRequestHash svc' m' ep' ps'
            \<longleftrightarrow> (svc = svc' \<and> m = m' \<and> ep = ep' \<and> ps = ps')
               \<or> (request_message svc m ep ps \<noteq> request_message svc' m' ep' ps'
                   \<and> md5_hex (request_message svc m ep ps)
                       = md5_hex (request_message svc' m' ep' ps')))"
proof -
  have d: "generateRequestHash svc m ep ps = md5_hex (request_message svc m ep ps)"
    by (rule generateRequestHash_message)
  have d': "generateRequestHash svc' m' ep' ps' = md5_hex (request_message svc' m' ep' ps')"
    by (rule generateRequestHash_message)
  have inj: "request_message svc m ep ps = request_message svc' m' ep' ps'
            \<longleftrightarrow> svc = svc' \<and> m = m' \<and> ep = ep' \<and> ps = ps'"
    by (rule request_message_inj[OF assms])
  have l: "length (generateRequestHash svc m ep ps) = 32"
    by (simp add: d md5_hex_facts)
  have h: "set (generateRequestHash svc m ep ps) \<subseteq> hex_chars"
    by (simp add: d md5_hex_facts)
  have c: "generateRequestHash svc m ep ps = generateRequestHash svc' m' ep' ps'
            \<longleftrightarrow> (svc = svc' \<and> m = m' \<and> ep = ep' \<and> ps = ps')
               \<or> (request_message svc m ep ps \<noteq> request_message svc' m' ep' ps'
                   \<and> md5_hex (request_message svc m ep ps)
                       = md5_hex (request_message svc' m' ep' ps'))"
    unfolding d d' using inj by metis
  from d l h inj c show ?thesis by blast
qed

theorem fingerprint_digest_of_request_witness:
  "CHR '':'' \<notin> set ''GET'' \<and> CHR '':'' \<notin> set ''/repos/o/r/commits''
   \<and> generateRequestHash Github ''GET'' ''/repos/o/r/commits''
        (JObj [(''since'', JStr ''a''), (''until'', JStr ''b'')])
      = md5_hex (request_message Github ''GET'' ''/repos/o/r/commits''
          (JObj [(''since'', JStr ''a''), (''until'', JStr ''b'')]))
   \<and> length (generateRequestHash Github ''GET'' ''/repos/o/r/commits''
        (JObj [(''since'', JStr ''a''), (''until'', JStr ''b'')])) = 32
   \<and> request_message Github ''GET'' ''/repos/o/r/commits''
        (JObj [(''since'', JStr ''a''), (''until'', JStr ''b'')])
      \<noteq> request_message Github ''GET'' ''/repos/o/r/commits''
        (JObj [(''until'', JStr ''b''), (''since'', JStr ''a'')])"
  using fingerprint_digest_of_request[of "''GET''" "''/repos/o/r/commits''" "''GET''"
          "''/repos/o/r/commits''" Github "JObj [(''since'', JStr ''a''), (''until'', JStr ''b'')]"
          Github "JObj [(''until'', JStr ''b''), (''since'', JStr ''a'')]"]
  by (simp add: md5_hex_facts)

text \<open>
  C2 as stated fails: the same two parameters in the other key order give another
  fingerprint.
\<close>

lemma since_until_hash:
  "generateRequestHash Github ''GET'' ''/repos/o/r/commits''
     (JObj [(''since'', JStr ''a''), (''until'', JStr ''b'')]) = ''d1c0185ef8f16e1f7e9fdd2179f39eff''"
  by code_simp

lemma until_since_hash:
  "generateRequestHash Github ''GET'' ''/repos/o/r/commits''
     (JObj [(''until'', JStr ''b''), (''since'', JStr ''a'')]) = ''fef582269273538f39a871baedc730ac''"
  by code_simp

theorem key_order_counterexample:
  "set [(''since'', JStr ''a''), (''until'', JStr ''b'')]
     = set [(''until'', JStr ''b''), (''since'', JStr ''a'')]
   \<and> generateRequestHash Github ''GET'' ''/repos/o/r/commits''
        (JObj [(''since'', JStr ''a''), (''until'', JStr ''b'')])
      \<noteq> generateRequestHash Github ''GET'' ''/repos/o/r/commits''
        (JObj [(''until'', JStr ''b''), (''since'', JStr ''a'')])"
  unfolding since_until_hash until_since_hash by auto

section \<open>Properties of the cached API call\<close>

subsection \<open>The ways through the function\<close>

lemma cache_valid_iff: "cache_valid now c \<longleftrightarrow> is_success c \<and> fresh now c"
  by (auto simp: cache_valid_def fresh_def split: option.splits)

lemma github_hit:
  assumes "find_error e = None"
    and "apiCalls db (GithubService_generateRequestHash method endpoint params) = Some c"
    and "cache_valid (check_time e) c"
  shows "GithubService_cachedApiCall e method endpoint params opts db = (Inr (response c), db)"
  using assms by (simp add: GithubService_cachedApiCall_def Let_def)

lemma suno_hit:
  assumes "find_error e = None"
    and "\<not> option_disableCache opts"
    and "apiCalls db (SunoService_generateRequestHash method endpoint requestData) = Some c"
    and "cache_valid (check_time e) c"
  shows "SunoService_cachedApiCall e method endpoint requestData opts db = (Inr (response c), db)"
  using assms by (simp add: SunoService_cachedApiCall_def Let_def)

lemma suno_disabled:
  "option_disableCache opts \<Longrightarrow>
   SunoService_cachedApiCall e method endpoint requestData opts db =
     SunoService_liveCall e method endpoint requestData (option_cacheHours opts) (option_headers opts)
       (SunoService_generateRequestHash method endpoint requestData) db"
  by (simp add: SunoService_cachedApiCall_def Let_def)

lemma github_miss:
  assumes "find_error e = None"
    and "\<forall>c. apiCalls db (GithubService_generateRequestHash method endpoint params) = Some c
           \<longrightarrow> \<not> cache_valid (check_time e) c"
  shows "GithubService_cachedApiCall e method endpoint params opts db =
     GithubService_liveCall e method endpoint params (option_cacheHours opts) (option_headers opts)
       (GithubService_generateRequestHash method endpoint params) db"
  using assms
  by (simp add: GithubService_cachedApiCall_def Let_def split: option.splits)

lemma suno_miss:
  assumes "find_error e = None"
    and "\<forall>c. apiCalls db (SunoService_generateRequestHash method endpoint requestData) = Some c
           \<longrightarrow> \<not> cache_valid (check_time e) c"
  shows "SunoService_cachedApiCall e method endpoint requestData opts db =
     SunoService_liveCall e method endpoint requestData (option_cacheHours opts) (option_headers opts)
       (SunoService_generateRequestHash method endpoint requestData) db"
  using assms
  by (simp add: SunoService_cachedApiCall_def Let_def split: option.splits)

lemma cachedApiCall_hit:
  assumes "reads_cache svc opts" and "find_error e = None"
    and "apiCalls db (generateRequestHash svc method endpoint params) = Some c"
    and "cache_valid (check_time e) c"
  shows "cachedApiCall svc e method endpoint params opts db = (Inr (response c), db)"
  using assms
  by (cases svc) (simp_all add: cachedApiCall_def generateRequestHash_def reads_cache_def github_hit suno_hit)

lemma cachedApiCall_miss:
  assumes "find_error e = None"
    and "\<forall>c. apiCalls db (generateRequestHash svc method endpoint params) = Some c
           \<longrightarrow> \<not> cache_valid (check_time e) c"
  shows "cachedApiCall svc e method endpoint params opts db = liveCall svc e method endpoint params opts db"
  using assms
  by (cases svc) (simp_all add: cachedApiCall_def generateRequestHash_def liveCall_def github_miss suno_miss)

lemma cachedApiCall_disabled:
  assumes "\<not> reads_cache svc opts"
  shows "cachedApiCall svc e method endpoint params opts db = liveCall svc e method endpoint params opts db"
  using assms
  by (cases svc) (simp_all add: cachedApiCall_def reads_cache_def liveCall_def suno_disabled)

lemma reaches_live_call:
  "reaches_live svc e method endpoint params opts db \<Longrightarrow>
   cachedApiCall svc e method endpoint params opts db = liveCall svc e method endpoint params opts db"
  unfolding reaches_live_def
  by (cases "reads_cache svc opts")
     (auto simp: cachedApiCall_disabled cache_valid_iff intro!: cachedApiCall_miss split: option.splits)

lemma lookup_failure:
  assumes "reads_cache svc opts" and "find_error e = Some err"
  shows "isl (fst (cachedApiCall svc e method endpoint params opts db))"
  using assms
  by (cases svc)
     (simp_all add: cachedApiCall_def GithubService_cachedApiCall_def SunoService_cachedApiCall_def
        reads_cache_def GithubService_catch_def SunoService_catch_def Let_def split: option.splits)

lemma liveCall_failure:
  assumes "axios e (live_request svc e method endpoint params opts) = Inl err"
  shows "liveCall svc e method endpoint params opts db =
     (case failure_upsert_error e of
        Some error2 \<Rightarrow> (Inl error2, sent svc e method endpoint params opts db)
      | None \<Rightarrow> (Inl (rethrown svc err),
                 failure_row svc e method endpoint params err (sent svc e method endpoint params opts db)))"
  using assms
  by (cases svc)
     (simp_all add: liveCall_def live_request_def GithubService_liveCall_def SunoService_liveCall_def
        GithubService_catch_def SunoService_catch_def failure_row_def sent_def rethrown_def
        service_name_def generateRequestHash_def Error_def Let_def split: option.splits)

lemma liveCall_store_failure:
  assumes "axios e (live_request svc e method endpoint params opts) = Inr resp"
    and "upsert_error e = Some err"
  shows "liveCall svc e method endpoint params opts db =
     (case failure_upsert_error e of
        Some error2 \<Rightarrow> (Inl error2, sent svc e method endpoint params opts db)
      | None \<Rightarrow> (Inl (rethrown svc err),
                 failure_row svc e method endpoint params err (sent svc e method endpoint params opts db)))"
  using assms
  by (cases svc)
     (simp_all add: liveCall_def live_request_def GithubService_liveCall_def SunoService_liveCall_def
        GithubService_catch_def SunoService_catch_def failure_row_def sent_def rethrown_def
        service_name_def generateRequestHash_def Error_def Let_def split: option.splits)

lemma liveCall_success:
  assumes "axios e (live_request svc e method endpoint params opts) = Inr resp"
    and "upsert_error e = None"
  shows "liveCall svc e method endpoint params opts db =
     (Inr (resp_data resp),
      updateApiLimit svc e
        (success_row svc e method endpoint params opts resp (sent svc e method endpoint params opts db)))"
  using assms
  by (cases svc)
     (simp_all add: liveCall_def live_request_def GithubService_liveCall_def SunoService_liveCall_def
        success_row_def sent_def updateApiLimit_def service_name_def generateRequestHash_def Let_def)

lemma live_calls_liveCall:
  "live_calls (snd (liveCall svc e method endpoint params opts db)) =
     live_calls db @ [live_request svc e method endpoint params opts]"
  by (cases svc)
     (simp_all add: liveCall_def live_request_def GithubService_liveCall_def SunoService_liveCall_def
        GithubService_catch_def SunoService_catch_def GithubService_updateApiLimit_def
        SunoService_updateApiLimit_def Let_def split: sum.splits option.splits)

subsection \<open>The rows written\<close>

lemma updateApiLimit_used:
  "limit_error e = None \<Longrightarrow>
   used (updateApiLimit svc e db) svc = Some (case used db svc of None \<Rightarrow> 1 | Some n \<Rightarrow> n + 1)"
  by (cases svc)
     (simp_all add: used_def updateApiLimit_def GithubService_updateApiLimit_def
        SunoService_updateApiLimit_def service_name_def upsert_def split: option.splits)

lemma updateApiLimit_swallows:
  "limit_error e = Some err \<Longrightarrow>
   updateApiLimit svc e db = db\<lparr>warnings := warnings db @ [ApiLimitNotUpdated (service_name svc) (message err)]\<rparr>"
  by (cases svc)
     (simp_all add: updateApiLimit_def GithubService_updateApiLimit_def
        SunoService_updateApiLimit_def service_name_def)

lemma updateApiLimit_apiCalls: "apiCalls (updateApiLimit svc e db) = apiCalls db"
  by (cases svc)
     (simp_all add: updateApiLimit_def GithubService_updateApiLimit_def
        SunoService_updateApiLimit_def split: option.splits)

lemma record_failure_row:
  "\<exists>r. record_failure e svc method endpoint params h err tbl h = Some r
     \<and> \<not> is_success r
     \<and> error_message r = Some (message err)
     \<and> status_code r = Some (error_status err)
     \<and> expires_at r = (case tbl h of None \<Rightarrow> None | Some old \<Rightarrow> expires_at old)"
  by (simp add: record_failure_def upsert_def split: option.splits)

lemma record_success_row:
  "\<exists>r. record_success e svc method endpoint params h resp ex tbl h = Some r
     \<and> is_success r
     \<and> response r = resp_data resp
     \<and> status_code r = Some (resp_status resp)
     \<and> error_message r = None
     \<and> expires_at r = ex"
  by (simp add: record_success_def upsert_def split: option.splits)

lemma failure_row_facts:
  "apiLimits (failure_row svc e method endpoint params err db) = apiLimits db"
  "live_calls (failure_row svc e method endpoint params err db) = live_calls db"
  "\<exists>r. apiCalls (failure_row svc e method endpoint params err db)
         (generateRequestHash svc method endpoint params) = Some r
       \<and> \<not> is_success r \<and> error_message r = Some (message err)
       \<and> expires_at r = (case apiCalls db (generateRequestHash svc method endpoint params) of
                           None \<Rightarrow> None | Some old \<Rightarrow> expires_at old)"
  using record_failure_row[of e "service_name svc" "method" endpoint _
          "generateRequestHash svc method endpoint params" err "apiCalls db"]
  by (auto simp: failure_row_def)

lemma success_row_facts:
  "apiLimits (success_row svc e method endpoint params opts resp db) = apiLimits db"
  "live_calls (success_row svc e method endpoint params opts resp db) = live_calls db"
  "\<exists>r. apiCalls (success_row svc e method endpoint params opts resp db)
         (generateRequestHash svc method endpoint params) = Some r
       \<and> is_success r \<and> response r = resp_data resp
       \<and> expires_at r = expiry e (option_cacheHours opts)"
  using record_success_row[of e "service_name svc" "method" endpoint _
          "generateRequestHash svc method endpoint params" resp "expiry e (option_cacheHours opts)" "apiCalls db"]
  by (auto simp: success_row_def)

lemma sent_facts:
  "apiLimits (sent svc e method endpoint params opts db) = apiLimits db"
  "apiCalls (sent svc e method endpoint params opts db) = apiCalls db"
  "live_calls (sent svc e method endpoint params opts db)
     = live_calls db @ [live_request svc e method endpoint params opts]"
  by (simp_all add: sent_def)

lemma used_cong: "apiLimits db = apiLimits db' \<Longrightarrow> used db svc = used db' svc"
  by (simp add: used_def)

lemma record_success_other:
  "k \<noteq> h \<Longrightarrow> record_success e svc method endpoint params h resp ex tbl k = tbl k"
  by (simp add: record_success_def upsert_def)

subsection \<open>Cache hits\<close>

text \<open>
  C1, as amended. When the cache is read (always in \<open>GithubService\<close>; in \<open>SunoService\<close>
  unless the caller set \<open>disableCache\<close>), the lookup succeeds and finds a row with
  \<open>is_success\<close> and an expiry that is null or in the future, the call returns the stored
  response and leaves the tables as they were: no request is sent and no counter changes.
\<close>

theorem cache_hit_served:
  assumes "reads_cache svc opts"
    and "find_error e = None"
    and "apiCalls db (generateRequestHash svc method endpoint params) = Some c"
    and "is_success c"
    and "fresh (check_time e) c"
  shows "cachedApiCall svc e method endpoint params opts db = (Inr (response c), db)"
  using assms by (simp add: cachedApiCall_hit cache_valid_iff)

theorem cache_hit_served_witness:
  "reads_cache Github no_options
   \<and> find_error sample_env = None
   \<and> apiCalls (cached_tables Github ''GET'' ''/repos/o/r'' (JObj []))
        (generateRequestHash Github ''GET'' ''/repos/o/r'' (JObj []))
      = Some (cached_row Github ''GET'' ''/repos/o/r'' (JObj []))
   \<and> is_success (cached_row Github ''GET'' ''/repos/o/r'' (JObj []))
   \<and> fresh (check_time sample_env) (cached_row Github ''GET'' ''/repos/o/r'' (JObj []))
   \<and> cachedApiCall Github sample_env ''GET'' ''/repos/o/r'' (JObj []) no_options
        (cached_tables Github ''GET'' ''/repos/o/r'' (JObj []))
      = (Inr pending_reply, cached_tables Github ''GET'' ''/repos/o/r'' (JObj []))"
proof -
  have 1: "reads_cache Github no_options" by (simp add: reads_cache_def)
  have 2: "find_error sample_env = None" by (simp add: sample_env_def)
  have 3: "apiCalls (cached_tables Github ''GET'' ''/repos/o/r'' (JObj []))
        (generateRequestHash Github ''GET'' ''/repos/o/r'' (JObj []))
      = Some (cached_row Github ''GET'' ''/repos/o/r'' (JObj []))"
    by (simp add: cached_tables_def empty_tables_def)
  have 4: "is_success (cached_row Github ''GET'' ''/repos/o/r'' (JObj []))"
    by (simp add: cached_row_def)
  have 5: "fresh (check_time sample_env) (cached_row Github ''GET'' ''/repos/o/r'' (JObj []))"
    by (simp add: fresh_def cached_row_def sample_env_def)
  have 6: "response (cached_row Github ''GET'' ''/repos/o/r'' (JObj [])) = pending_reply"
    by (simp add: cached_row_def)
  from cache_hit_served[OF 1 2 3 4 5] 1 2 3 4 5 6 show ?thesis by simp
qed

text \<open>
  C1 as stated fails for \<open>SunoService\<close> with \<open>disableCache\<close>: a succeeded row that
  expires in the future is there, and still the request is sent, the new body is returned
  and the counter goes from 5 to 6.
\<close>

theorem cache_disabled_counterexample:
  "find_error sample_env = None
   \<and> apiCalls (cached_tables Suno ''GET'' ''/v1/generate/record-info'' (JObj [(''taskId'', JStr ''T1'')]))
        (generateRequestHash Suno ''GET'' ''/v1/generate/record-info'' (JObj [(''taskId'', JStr ''T1'')]))
      = Some (cached_row Suno ''GET'' ''/v1/generate/record-info'' (JObj [(''taskId'', JStr ''T1'')]))
   \<and> is_success (cached_row Suno ''GET'' ''/v1/generate/record-info'' (JObj [(''taskId'', JStr ''T1'')]))
   \<and> fresh (check_time sample_env)
        (cached_row Suno ''GET'' ''/v1/generate/record-info'' (JObj [(''taskId'', JStr ''T1'')]))
   \<and> fst (cachedApiCall Suno sample_env ''GET'' ''/v1/generate/record-info''
             (JObj [(''taskId'', JStr ''T1'')]) poll_options
             (cached_tables Suno ''GET'' ''/v1/generate/record-info'' (JObj [(''taskId'', JStr ''T1'')])))
      = Inr success_reply
   \<and> response (cached_row Suno ''GET'' ''/v1/generate/record-info'' (JObj [(''taskId'', JStr ''T1'')]))
      = pending_reply
   \<and> length (live_calls (snd (cachedApiCall Suno sample_env ''GET'' ''/v1/generate/record-info''
             (JObj [(''taskId'', JStr ''T1'')]) poll_options
             (cached_tables Suno ''GET'' ''/v1/generate/record-info'' (JObj [(''taskId'', JStr ''T1'')])))))
      = 1
   \<and> live_calls (cached_tables Suno ''GET'' ''/v1/generate/record-info'' (JObj [(''taskId'', JStr ''T1'')])) = []
   \<and> used (snd (cachedApiCall Suno sample_env ''GET'' ''/v1/generate/record-info''
             (JObj [(''taskId'', JStr ''T1'')]) poll_options
             (cached_tables Suno ''GET'' ''/v1/generate/record-info'' (JObj [(''taskId'', JStr ''T1'')]))))
        Suno = Some 6
   \<and> used (cached_tables Suno ''GET'' ''/v1/generate/record-info'' (JObj [(''taskId'', JStr ''T1'')])) Suno
      = Some 5"
proof -
  let ?p = "JObj [(''taskId'', JStr ''T1'')]"
  let ?db = "cached_tables Suno ''GET'' ''/v1/generate/record-info'' ?p"
  have off: "\<not> reads_cache Suno poll_options"
    by (simp add: reads_cache_def poll_options_def option_disableCache_def no_options_def)
  have ax: "axios sample_env (live_request Suno sample_env ''GET'' ''/v1/generate/record-info'' ?p poll_options)
      = Inr \<lparr>resp_status = 200, resp_data = success_reply\<rparr>"
    by (simp add: sample_env_def)
  have up: "upsert_error sample_env = None" "limit_error sample_env = None"
    by (simp_all add: sample_env_def)
  have run: "cachedApiCall Suno sample_env ''GET'' ''/v1/generate/record-info'' ?p poll_options ?db
      = (Inr success_reply,
         updateApiLimit Suno sample_env
           (success_row Suno sample_env ''GET'' ''/v1/generate/record-info'' ?p poll_options
              \<lparr>resp_status = 200, resp_data = success_reply\<rparr>
              (sent Suno sample_env ''GET'' ''/v1/generate/record-info'' ?p poll_options ?db)))"
    by (simp add: cachedApiCall_disabled[OF off] liveCall_success[OF ax up(1)])
  have lc: "live_calls ?db = []" by (simp add: cached_tables_def empty_tables_def)
  have u0: "used ?db Suno = Some 5" by (simp add: used_def cached_tables_def empty_tables_def)
  have u1: "used (snd (cachedApiCall Suno sample_env ''GET'' ''/v1/generate/record-info'' ?p poll_options ?db)) Suno
      = Some 6"
    unfolding run snd_conv updateApiLimit_used[OF up(2)]
    by (simp add: used_def success_row_def sent_def cached_tables_def empty_tables_def)
  have l1: "length (live_calls (snd (cachedApiCall Suno sample_env ''GET'' ''/v1/generate/record-info'' ?p poll_options ?db))) = 1"
    by (simp add: cachedApiCall_disabled[OF off] live_calls_liveCall lc)
  show ?thesis
    using run u0 u1 l1 lc
    by (simp add: sample_env_def cached_tables_def empty_tables_def cached_row_def fresh_def)
qed

subsection \<open>Failed live calls\<close>

text \<open>
  C4. When an invocation gets as far as the live call and that call fails, the caller gets
  an error and no row of \<open>apiLimits\<close> changes. When the \<open>upsert\<close> of the \<open>catch\<close> block
  succeeds, the error is the one of the call (wrapped by \<open>SunoService\<close>), the row under
  the fingerprint has \<open>is_success = False\<close> and the message of the error, its expiry is
  the one it had before (null for a new row), and the next invocation whose lookup
  succeeds sends the request again.
\<close>

theorem failed_call_not_billed:
  assumes reach: "reaches_live svc e method endpoint params opts db"
    and fail: "axios e (live_request svc e method endpoint params opts) = Inl err"
  shows "(let h = generateRequestHash svc method endpoint params;
              (res, db') = cachedApiCall svc e method endpoint params opts db
          in isl res
             \<and> apiLimits db' = apiLimits db
             \<and> (failure_upsert_error e = None \<longrightarrow>
                  res = Inl (rethrown svc err)
                  \<and> (\<exists>r. apiCalls db' h = Some r \<and> \<not> is_success r
                         \<and> error_message r = Some (message err)
                         \<and> expires_at r = (case apiCalls db h of None \<Rightarrow> None | Some old \<Rightarrow> expires_at old))
                  \<and> (\<forall>e'. find_error e' = None \<longrightarrow>
                        live_calls (snd (cachedApiCall svc e' method endpoint params opts db'))
                          = live_calls db' @ [live_request svc e' method endpoint params opts])))"
proof -
  let ?h = "generateRequestHash svc method endpoint params"
  let ?sent = "sent svc e method endpoint params opts db"
  let ?failed = "failure_row svc e method endpoint params err ?sent"
  have call: "cachedApiCall svc e method endpoint params opts db =
     (case failure_upsert_error e of
        Some error2 \<Rightarrow> (Inl error2, ?sent)
      | None \<Rightarrow> (Inl (rethrown svc err), ?failed))"
    by (simp only: reaches_live_call[OF reach] liveCall_failure[OF fail])
  show ?thesis
  proof (cases "failure_upsert_error e")
    case (Some error2)
    then show ?thesis by (simp add: call sent_facts)
  next
    case None
    obtain r where r: "apiCalls ?failed ?h = Some r" "\<not> is_success r"
        "error_message r = Some (message err)"
        "expires_at r = (case apiCalls db ?h of None \<Rightarrow> None | Some old \<Rightarrow> expires_at old)"
      using failure_row_facts(3)[of svc e "method" endpoint params err ?sent]
      by (auto simp: sent_facts)
    have again: "live_calls (snd (cachedApiCall svc e' method endpoint params opts ?failed))
                   = live_calls ?failed @ [live_request svc e' method endpoint params opts]"
      if "find_error e' = None" for e'
    proof -
      have "reaches_live svc e' method endpoint params opts ?failed"
        using that r(1) r(2) by (simp add: reaches_live_def)
      then show ?thesis by (simp only: reaches_live_call live_calls_liveCall)
    qed
    show ?thesis
      using None r again by (simp add: call failure_row_facts sent_facts)
  qed
qed

theorem failed_call_not_billed_witness:
  "reaches_live Github timeout_env ''GET'' ''/repos/o/r'' (JObj []) no_options empty_tables
   \<and> axios timeout_env (live_request Github timeout_env ''GET'' ''/repos/o/r'' (JObj []) no_options)
      = Inl (Error ''timeout of 5000ms exceeded'')
   \<and> failure_upsert_error timeout_env = None
   \<and> fst (cachedApiCall Github timeout_env ''GET'' ''/repos/o/r'' (JObj []) no_options empty_tables)
      = Inl (Error ''timeout of 5000ms exceeded'')
   \<and> apiLimits (snd (cachedApiCall Github timeout_env ''GET'' ''/repos/o/r'' (JObj []) no_options
        empty_tables)) = Map.empty
   \<and> (\<exists>r. apiCalls (snd (cachedApiCall Github timeout_env ''GET'' ''/repos/o/r'' (JObj []) no_options
               empty_tables)) (generateRequestHash Github ''GET'' ''/repos/o/r'' (JObj [])) = Some r
          \<and> \<not> is_success r \<and> error_message r = Some ''timeout of 5000ms exceeded''
          \<and> expires_at r = None)"
proof -
  have 1: "reaches_live Github timeout_env ''GET'' ''/repos/o/r'' (JObj []) no_options empty_tables"
    by (simp add: reaches_live_def timeout_env_def sample_env_def empty_tables_def)
  have 2: "axios timeout_env (live_request Github timeout_env ''GET'' ''/repos/o/r'' (JObj []) no_options)
      = Inl (Error ''timeout of 5000ms exceeded'')"
    by (simp add: timeout_env_def sample_env_def)
  have 3: "failure_upsert_error timeout_env = None"
    by (simp add: timeout_env_def sample_env_def)
  have 4: "apiCalls empty_tables (generateRequestHash Github ''GET'' ''/repos/o/r'' (JObj [])) = None"
    "apiLimits empty_tables = Map.empty"
    by (simp_all add: empty_tables_def)
  from failed_call_not_billed[OF 1 2] 1 2 3 4 show ?thesis
    by (auto simp: Let_def rethrown_def Error_def split: prod.splits)
qed

subsection \<open>Failed bookkeeping\<close>

text \<open>
  Of the two writes after a successful call only the one of \<open>#updateApiLimit\<close> is
  guarded: its error becomes a warning and the response is returned. An error of the
  \<open>upsert\<close> into \<open>apiCalls\<close> reaches the \<open>catch\<close> block of the whole function.
\<close>

lemma store_failure_surfaces:
  assumes "reaches_live svc e method endpoint params opts db"
    and "axios e (live_request svc e method endpoint params opts) = Inr resp"
    and "upsert_error e = Some err"
  shows "isl (fst (cachedApiCall svc e method endpoint params opts db))"
  by (simp add: reaches_live_call[OF assms(1)] liveCall_store_failure[OF assms(2) assms(3)]
      split: option.splits)

lemma limit_failure_swallowed:
  assumes "reaches_live svc e method endpoint params opts db"
    and "axios e (live_request svc e method endpoint params opts) = Inr resp"
    and "upsert_error e = None"
  shows "fst (cachedApiCall svc e method endpoint params opts db) = Inr (resp_data resp)"
  by (simp add: reaches_live_call[OF assms(1)] liveCall_success[OF assms(2) assms(3)])

text \<open>
  C5. The claim does not hold of the code: the live call answers with status 200, the
  \<open>upsert\<close> into \<open>apiCalls\<close> throws, and the caller gets that error (wrapped by
  \<open>SunoService\<close>) instead of the response.
\<close>

theorem bookkeeping_failure_propagates:
  "axios outage_env (live_request Github outage_env ''GET'' ''/repos/o/r'' (JObj []) no_options)
      = Inr \<lparr>resp_status = 200, resp_data = success_reply\<rparr>
   \<and> fst (cachedApiCall Github outage_env ''GET'' ''/repos/o/r'' (JObj []) no_options empty_tables)
      = Inl (Error ''database unavailable'')
   \<and> axios outage_env (live_request Suno outage_env ''GET'' ''/v1/generate/credit'' (JObj []) no_options)
      = Inr \<lparr>resp_status = 200, resp_data = success_reply\<rparr>
   \<and> fst (cachedApiCall Suno outage_env ''GET'' ''/v1/generate/credit'' (JObj []) no_options empty_tables)
      = Inl (Error ''Suno API call failed: database unavailable'')"
proof -
  have up: "upsert_error outage_env = Some (Error ''database unavailable'')"
    "failure_upsert_error outage_env = None"
    by (simp_all add: outage_env_def sample_env_def)
  have ax: "axios outage_env cfg = Inr \<lparr>resp_status = 200, resp_data = success_reply\<rparr>" for cfg
    by (simp add: outage_env_def sample_env_def)
  have reach: "reaches_live svc outage_env m ep ps no_options empty_tables"
    for svc m ep ps
    by (simp add: reaches_live_def outage_env_def sample_env_def empty_tables_def)
  show ?thesis
    by (simp add: ax reaches_live_call[OF reach] liveCall_store_failure[OF ax up(1)] up(2)
        rethrown_def Error_def)
qed

subsection \<open>Status polls\<close>

lemma forced_live:
  assumes "option_disableCache opts'" "option_headers opts' = option_headers opts"
    "option_cacheHours opts' = option_cacheHours opts"
  shows "poll_is_live endpoint e taskId opts db
           (SunoService_cachedApiCall e ''GET'' endpoint (JObj [(''taskId'', JStr taskId)]) opts' db)"
proof -
  let ?p = "JObj [(''taskId'', JStr taskId)]"
  have off: "\<not> reads_cache Suno opts'" using assms(1) by (simp add: reads_cache_def)
  have req: "live_request Suno e ''GET'' endpoint ?p opts' = live_request Suno e ''GET'' endpoint ?p opts"
    using assms(2) by (simp add: live_request_def)
  have call: "SunoService_cachedApiCall e ''GET'' endpoint ?p opts' db
               = liveCall Suno e ''GET'' endpoint ?p opts' db"
    using cachedApiCall_disabled[OF off] by (simp add: cachedApiCall_def)
  have live: "live_calls (snd (liveCall Suno e ''GET'' endpoint ?p opts' db))
      = live_calls db @ [live_request Suno e ''GET'' endpoint ?p opts]"
    by (simp add: live_calls_liveCall req)
  have ok: "fst (liveCall Suno e ''GET'' endpoint ?p opts' db) = Inr (resp_data resp)
      \<and> (\<exists>r. apiCalls (snd (liveCall Suno e ''GET'' endpoint ?p opts' db))
                (generateRequestHash Suno ''GET'' endpoint ?p) = Some r \<and> is_success r
              \<and> response r = resp_data resp \<and> expires_at r = expiry e (option_cacheHours opts))
      \<and> (limit_error e = None \<longrightarrow>
            used (snd (liveCall Suno e ''GET'' endpoint ?p opts' db)) Suno
              = Some (case used db Suno of None \<Rightarrow> 1 | Some n \<Rightarrow> n + 1))"
    if ax: "axios e (live_request Suno e ''GET'' endpoint ?p opts) = Inr resp"
      and up: "upsert_error e = None" for resp
  proof -
    let ?stored = "success_row Suno e ''GET'' endpoint ?p opts' resp (sent Suno e ''GET'' endpoint ?p opts' db)"
    have run: "liveCall Suno e ''GET'' endpoint ?p opts' db
        = (Inr (resp_data resp), updateApiLimit Suno e ?stored)"
      using ax up by (simp add: liveCall_success req)
    have row: "\<exists>r. apiCalls (updateApiLimit Suno e ?stored)
                (generateRequestHash Suno ''GET'' endpoint ?p) = Some r \<and> is_success r
              \<and> response r = resp_data resp \<and> expires_at r = expiry e (option_cacheHours opts)"
      using success_row_facts(3)[of Suno e "''GET''" endpoint ?p opts' resp "sent Suno e ''GET'' endpoint ?p opts' db"]
      by (simp add: updateApiLimit_apiCalls assms(3))
    have cnt: "used (updateApiLimit Suno e ?stored) Suno
                 = Some (case used db Suno of None \<Rightarrow> 1 | Some n \<Rightarrow> n + 1)"
      if "limit_error e = None"
      using updateApiLimit_used[OF that, of Suno ?stored]
        used_cong[of ?stored db Suno]
      by (simp add: success_row_facts sent_facts)
    show ?thesis using row cnt by (simp add: run)
  qed
  show ?thesis
    unfolding poll_is_live_def Let_def call using live ok by blast
qed

text \<open>
  C10. \<open>getTaskDetails\<close> and \<open>getLyricsTaskDetails\<close> set \<open>disableCache\<close> over whatever
  the caller passed. For a non-empty task id each of them sends the request, whatever the
  tables hold; when the call and the \<open>upsert\<close> succeed it returns the new body and
  overwrites the row under the fingerprint, and when the counter can be written it counts
  one more request.
\<close>

theorem status_poll_skips_cache:
  assumes "taskId \<noteq> []"
  shows "poll_is_live ''/v1/generate/record-info'' e taskId opts db
           (SunoService_getTaskDetails e taskId opts db)
       \<and> poll_is_live ''/v1/lyrics/record-info'' e taskId opts db
           (SunoService_getLyricsTaskDetails e taskId opts db)"
proof -
  have opts: "option_disableCache (opts\<lparr>disableCache := Some True\<rparr>)"
    "option_headers (opts\<lparr>disableCache := Some True\<rparr>) = option_headers opts"
    "option_cacheHours (opts\<lparr>disableCache := Some True\<rparr>) = option_cacheHours opts"
    by (simp_all add: option_disableCache_def option_headers_def option_cacheHours_def)
  show ?thesis
    using assms forced_live[OF opts]
    by (simp add: SunoService_getTaskDetails_def SunoService_getLyricsTaskDetails_def Let_def)
qed

theorem status_poll_skips_cache_witness:
  "''T1'' \<noteq> []
   \<and> apiCalls (cached_tables Suno ''GET'' ''/v1/generate/record-info'' (JObj [(''taskId'', JStr ''T1'')]))
        (generateRequestHash Suno ''GET'' ''/v1/generate/record-info'' (JObj [(''taskId'', JStr ''T1'')]))
      = Some (cached_row Suno ''GET'' ''/v1/generate/record-info'' (JObj [(''taskId'', JStr ''T1'')]))
   \<and> fst (SunoService_getTaskDetails sample_env ''T1'' no_options
        (cached_tables Suno ''GET'' ''/v1/generate/record-info'' (JObj [(''taskId'', JStr ''T1'')])))
      = Inr success_reply
   \<and> length (live_calls (snd (SunoService_getTaskDetails sample_env ''T1'' no_options
        (cached_tables Suno ''GET'' ''/v1/generate/record-info'' (JObj [(''taskId'', JStr ''T1'')])))))
      = 1
   \<and> used (snd (SunoService_getTaskDetails sample_env ''T1'' no_options
        (cached_tables Suno ''GET'' ''/v1/generate/record-info'' (JObj [(''taskId'', JStr ''T1'')]))))
        Suno = Some 6"
proof -
  let ?db = "cached_tables Suno ''GET'' ''/v1/generate/record-info'' (JObj [(''taskId'', JStr ''T1'')])"
  have 1: "''T1'' \<noteq> []" by simp
  have e: "axios sample_env cfg = Inr \<lparr>resp_status = 200, resp_data = success_reply\<rparr>"
    "upsert_error sample_env = None" "limit_error sample_env = None" for cfg
    by (simp_all add: sample_env_def)
  have db: "live_calls ?db = []" "used ?db Suno = Some 5"
    "apiCalls ?db (generateRequestHash Suno ''GET'' ''/v1/generate/record-info'' (JObj [(''taskId'', JStr ''T1'')]))
      = Some (cached_row Suno ''GET'' ''/v1/generate/record-info'' (JObj [(''taskId'', JStr ''T1'')]))"
    by (simp_all add: cached_tables_def empty_tables_def used_def)
  from status_poll_skips_cache[OF 1, of sample_env no_options ?db]
  have "poll_is_live ''/v1/generate/record-info'' sample_env ''T1'' no_options ?db
           (SunoService_getTaskDetails sample_env ''T1'' no_options ?db)"
    by simp
  then show ?thesis
    using e db by (auto simp: poll_is_live_def Let_def)
qed

section \<open>Properties of adjustContent\<close>

lemma adjustLoop_done:
  "\<not> currentTokens > targetTokens \<Longrightarrow> adjustLoop est targetTokens currentTokens st = st"
  by (subst adjustLoop.simps) simp

lemma adjustLoop_cap:
  "currentTokens > targetTokens \<Longrightarrow> iteration st \<ge> maxIterations \<Longrightarrow>
   adjustLoop est targetTokens currentTokens st = st\<lparr>iteration := iteration st + 1\<rparr>"
  by (subst adjustLoop.simps) (simp add: Let_def)

lemma adjustLoop_history:
  "currentTokens > targetTokens \<Longrightarrow> iteration st < maxIterations \<Longrightarrow>
   length (history st) > 1 \<Longrightarrow>
   adjustLoop est targetTokens currentTokens st =
     adjustLoop est targetTokens (est (chat_messages (system st) (tl (history st)) (prompt st)))
       (st\<lparr>iteration := iteration st + 1, history := tl (history st)\<rparr>)"
  by (subst adjustLoop.simps) (simp add: Let_def)

lemma adjustLoop_system:
  "currentTokens > targetTokens \<Longrightarrow> iteration st < maxIterations \<Longrightarrow>
   \<not> length (history st) > 1 \<Longrightarrow> length (system st) > 50 \<Longrightarrow>
   sys' = js_slice (system st) 0
      (- min ((currentTokens - targetTokens + 1) div 2 * 4) (int (length (system st)) - 50)) \<Longrightarrow>
   adjustLoop est targetTokens currentTokens st =
     adjustLoop est targetTokens (est (chat_messages sys' (history st) (prompt st)))
       (st\<lparr>iteration := iteration st + 1, system := sys'\<rparr>)"
  by (subst adjustLoop.simps) (simp add: Let_def)

lemma adjustLoop_prompt:
  "currentTokens > targetTokens \<Longrightarrow> iteration st < maxIterations \<Longrightarrow>
   \<not> length (history st) > 1 \<Longrightarrow> \<not> length (system st) > 50 \<Longrightarrow> length (prompt st) > 50 \<Longrightarrow>
   p' = js_slice (prompt st) 0
      (- min ((currentTokens - targetTokens + 1) div 2 * 4) (int (length (prompt st)) - 50)) \<Longrightarrow>
   adjustLoop est targetTokens currentTokens st =
     adjustLoop est targetTokens (est (chat_messages (system st) (history st) p'))
       (st\<lparr>iteration := iteration st + 1, prompt := p'\<rparr>)"
  by (subst adjustLoop.simps) (simp add: Let_def)

lemma adjustLoop_floor:
  "currentTokens > targetTokens \<Longrightarrow> iteration st < maxIterations \<Longrightarrow>
   \<not> length (history st) > 1 \<Longrightarrow> \<not> length (system st) > 50 \<Longrightarrow> \<not> length (prompt st) > 50 \<Longrightarrow>
   adjustLoop est targetTokens currentTokens st = st\<lparr>iteration := iteration st + 1\<rparr>"
  by (subst adjustLoop.simps) (simp add: Let_def)

lemma adjustLoop_outcome:
  "currentTokens = est (chat_messages (system st) (history st) (prompt st)) \<Longrightarrow>
   iteration st \<le> maxIterations \<Longrightarrow>
   outcome_ok est targetTokens (adjustLoop est targetTokens currentTokens st)"
proof (induction "maxIterations - iteration st" arbitrary: st currentTokens)
  case 0
  then have it: "iteration st = maxIterations" by simp
  show ?case
  proof (cases "currentTokens > targetTokens")
    case False
    then show ?thesis using 0
      by (simp add: adjustLoop_done outcome_ok_def within_budget_def)
  next
    case True
    then show ?thesis using it
      by (simp add: adjustLoop_cap outcome_ok_def cap_exhausted_def)
  qed
next
  case (Suc n)
  then have it: "iteration st < maxIterations" by simp
  let ?st = "st\<lparr>iteration := iteration st + 1\<rparr>"
  show ?case
  proof (cases "currentTokens > targetTokens")
    case False
    then show ?thesis using Suc.prems
      by (simp add: adjustLoop_done outcome_ok_def within_budget_def)
  next
    case over: True
    consider (h) "length (history st) > 1"
      | (s) "\<not> length (history st) > 1" "length (system st) > 50"
      | (p) "\<not> length (history st) > 1" "\<not> length (system st) > 50" "length (prompt st) > 50"
      | (f) "\<not> length (history st) > 1" "\<not> length (system st) > 50" "\<not> length (prompt st) > 50"
      by blast
    then show ?thesis
    proof cases
      case h
      have "outcome_ok est targetTokens
              (adjustLoop est targetTokens (est (chat_messages (system st) (tl (history st)) (prompt st)))
                 (st\<lparr>iteration := iteration st + 1, history := tl (history st)\<rparr>))"
        using Suc.hyps(2) it by (intro Suc.hyps(1)) simp_all
      then show ?thesis by (simp only: adjustLoop_history[OF over it h])
    next
      case s
      define sys' where "sys' = js_slice (system st) 0
        (- min ((currentTokens - targetTokens + 1) div 2 * 4) (int (length (system st)) - 50))"
      have "outcome_ok est targetTokens
              (adjustLoop est targetTokens (est (chat_messages sys' (history st) (prompt st)))
                 (st\<lparr>iteration := iteration st + 1, system := sys'\<rparr>))"
        using Suc.hyps(2) it by (intro Suc.hyps(1)) simp_all
      then show ?thesis by (simp only: adjustLoop_system[OF over it s sys'_def])
    next
      case p
      define p' where "p' = js_slice (prompt st) 0
        (- min ((currentTokens - targetTokens + 1) div 2 * 4) (int (length (prompt st)) - 50))"
      have "outcome_ok est targetTokens
              (adjustLoop est targetTokens (est (chat_messages (system st) (history st) p'))
                 (st\<lparr>iteration := iteration st + 1, prompt := p'\<rparr>))"
        using Suc.hyps(2) it by (intro Suc.hyps(1)) simp_all
      then show ?thesis by (simp only: adjustLoop_prompt[OF over it p p'_def])
    next
      case f
      then show ?thesis using it
        by (simp add: adjustLoop_floor[OF over it f] outcome_ok_def at_floor_def)
    qed
  qed
qed

text \<open>
  C6, as amended. For every estimator and every input the loop ends after at most 100
  trimming steps (the counter is at most 101), and the result fits the budget, or has
  reached the floor in all three fields, or the loop was left because the counter passed
  the cap of 100.
\<close>

theorem adjustContent_outcome:
  "iteration (adjustContent est sys hist prmpt contextWindow) \<le> Suc maxIterations
   \<and> (within_budget est contextWindow (adjustContent est sys hist prmpt contextWindow)
      \<or> at_floor (adjustContent est sys hist prmpt contextWindow)
      \<or> cap_exhausted (adjustContent est sys hist prmpt contextWindow))"
proof -
  have "outcome_ok est contextWindow (adjustContent est sys hist prmpt contextWindow)"
    unfolding adjustContent_def Let_def by (rule adjustLoop_outcome) simp_all
  then show ?thesis by (simp add: outcome_ok_def)
qed

text \<open>
  C6 as stated fails when the cap ends the loop: of 1200 history messages 100 are
  dropped, 1100 remain, and the estimate is still above the budget of 4096.
\<close>

lemma adjustLoop_drops:
  "iteration st + n = maxIterations \<Longrightarrow>
   n + 1 < length (history st) \<Longrightarrow>
   (\<forall>j\<le>n. targetTokens < est (chat_messages (system st) (drop j (history st)) (prompt st))) \<Longrightarrow>
   targetTokens < currentTokens \<Longrightarrow>
   adjustLoop est targetTokens currentTokens st =
     st\<lparr>iteration := Suc maxIterations, history := drop n (history st)\<rparr>"
proof (induction n arbitrary: st currentTokens)
  case 0
  then show ?case by (simp add: adjustLoop_cap)
next
  case (Suc n)
  let ?st = "st\<lparr>iteration := iteration st + 1, history := tl (history st)\<rparr>"
  have it: "iteration st < maxIterations" using Suc.prems(1) by simp
  have h: "1 < length (history st)" using Suc.prems(2) by simp
  have est': "\<forall>j\<le>n. targetTokens < est (chat_messages (system ?st) (drop j (history ?st)) (prompt ?st))"
  proof (intro allI impI)
    fix j assume "j \<le> n"
    then have "Suc j \<le> Suc n" by simp
    with Suc.prems(3) have "targetTokens < est (chat_messages (system st) (drop (Suc j) (history st)) (prompt st))"
      by blast
    then show "targetTokens < est (chat_messages (system ?st) (drop j (history ?st)) (prompt ?st))"
      by (simp add: drop_Suc)
  qed
  have cur': "targetTokens < est (chat_messages (system st) (tl (history st)) (prompt st))"
    using est' by (auto dest: spec[of _ 0])
  have "adjustLoop est targetTokens (est (chat_messages (system st) (tl (history st)) (prompt st))) ?st
        = ?st\<lparr>iteration := Suc maxIterations, history := drop n (history ?st)\<rparr>"
    using Suc.prems(1) Suc.prems(2) est' cur' by (intro Suc.IH) simp_all
  then show ?case
    by (simp add: adjustLoop_history[OF Suc.prems(4) it h] drop_Suc)
qed

lemma sample_estimate_chatty:
  "sample_estimate (chat_messages ''Be brief.'' (drop j chatty_history) ''Sing.'') = 13 + 6 * int (1200 - j)"
  by (simp add: sample_estimate_def chat_messages_def chatty_history_def sum_list_replicate)

lemma adjustContent_chatty:
  "adjustContent sample_estimate ''Be brief.'' chatty_history ''Sing.'' 4096 =
     \<lparr>iteration = 101, system = ''Be brief.'', history = drop 100 chatty_history, prompt = ''Sing.''\<rparr>"
proof -
  let ?st = "\<lparr>iteration = 0, system = ''Be brief.'', history = chatty_history, prompt = ''Sing.''\<rparr>"
  have "adjustLoop sample_estimate 4096
          (sample_estimate (chat_messages ''Be brief.'' chatty_history ''Sing.'')) ?st
        = ?st\<lparr>iteration := Suc maxIterations, history := drop 100 (history ?st)\<rparr>"
  proof (rule adjustLoop_drops)
    show "\<forall>j\<le>100. 4096 < sample_estimate (chat_messages (system ?st) (drop j (history ?st)) (prompt ?st))"
      by (auto simp: sample_estimate_chatty)
    show "4096 < sample_estimate (chat_messages ''Be brief.'' chatty_history ''Sing.'')"
      using sample_estimate_chatty[of 0] by simp
  qed (simp_all add: maxIterations_def chatty_history_def)
  then show ?thesis by (simp add: adjustContent_def maxIterations_def)
qed

theorem adjustContent_cap_counterexample:
  "\<not> (within_budget sample_estimate 4096
          (adjustContent sample_estimate ''Be brief.'' chatty_history ''Sing.'' 4096)
       \<or> at_floor (adjustContent sample_estimate ''Be brief.'' chatty_history ''Sing.'' 4096))"
  by (simp add: adjustContent_chatty within_budget_def at_floor_def sample_estimate_chatty)
     (simp add: chatty_history_def)

section \<open>Properties of the chunker\<close>

lemma slice_in_range:
  "s \<le> e \<Longrightarrow> e \<le> length xs \<Longrightarrow> js_slice xs (int s) (int e) = take (e - s) (drop s xs)"
  by (simp add: js_slice_def Let_def nat_diff_distrib')

lemma ceil_div_step:
  fixes C :: nat
  assumes "0 < C" "C \<le> n"
  shows "(n + C - 1) div C = Suc ((n - C + C - 1) div C)"
proof -
  obtain m where n: "n = m + C" using assms(2) by (metis le_add_diff_inverse2)
  have "(m + C + C - 1) div C = (m + C - 1 + C) div C" using assms(1) by simp
  also have "\<dots> = Suc ((m + C - 1) div C)" using assms(1) by (simp only: div_add_self2)
  finally show ?thesis unfolding n by simp
qed

lemma ceil_div_last:
  fixes C :: nat
  assumes "0 < n" "n < C"
  shows "(n + C - 1) div C = 1"
proof -
  have "C \<le> n + C - 1" "n + C - 1 < 2 * C" using assms by simp_all
  then show ?thesis
    by (metis One_nat_def div_less div_nat_eqI mult.commute mult_1 nat_mult_1_right numeral_2_eq_2 mult_2 Suc_1)
qed

lemma chunkLoop_spec:
  assumes C: "0 < C"
  shows "s \<le> length text \<Longrightarrow>
    \<exists>cs. chunkLoop text (int C) (int s) acc = Some (acc @ cs)
        \<and> concat cs = drop s text
        \<and> length cs = (length text - s + C - 1) div C
        \<and> (\<forall>i<length cs. cs ! i = take C (drop (s + i * C) text))"
proof (induction "length text - s" arbitrary: s acc rule: less_induct)
  case less
  show ?case
  proof (cases "s < length text")
    case False
    with less.prems have "s = length text" by simp
    then show ?thesis using C by (subst chunkLoop.simps) simp
  next
    case True
    define e where "e = min (s + C) (length text)"
    have e_int: "min (int s + int C) (int (length text)) = int e"
      by (simp add: e_def)
    have se: "s < e" "e \<le> length text" using True C by (simp_all add: e_def)
    define chunk where "chunk = take C (drop s text)"
    have chunk_eq: "js_slice text (int s) (int e) = chunk"
      using se by (auto simp: slice_in_range chunk_def e_def min_def)
    have unfold: "chunkLoop text (int C) (int s) acc = chunkLoop text (int C) (int e) (acc @ [chunk])"
      using True by (subst chunkLoop.simps) (simp add: Let_def e_int chunk_eq)
    from less.hyps[of e "acc @ [chunk]"] se
    obtain cs where cs: "chunkLoop text (int C) (int e) (acc @ [chunk]) = Some ((acc @ [chunk]) @ cs)"
        "concat cs = drop e text"
        "length cs = (length text - e + C - 1) div C"
        "\<forall>i<length cs. cs ! i = take C (drop (e + i * C) text)"
      by (metis diff_less_mono2 True)
    let ?cs = "chunk # cs"
    have 1: "chunkLoop text (int C) (int s) acc = Some (acc @ ?cs)"
      using unfold cs(1) by simp
    have 2: "concat ?cs = drop s text"
    proof (cases "s + C \<le> length text")
      case True
      then have "e = s + C" by (simp add: e_def)
      then have "drop e text = drop C (drop s text)" by (simp add: add.commute)
      then have "concat cs = drop C (drop s text)" using cs(2) by simp
      then show ?thesis unfolding chunk_def by (simp only: concat.simps append_take_drop_id)
    next
      case False
      then have "e = length text" "length (drop s text) \<le> C" by (simp_all add: e_def)
      then show ?thesis using cs(2) by (simp add: chunk_def)
    qed
    have 3: "length ?cs = (length text - s + C - 1) div C"
    proof (cases "s + C \<le> length text")
      case True
      then have e: "e = s + C" by (simp add: e_def)
      have "C \<le> length text - s" using True by simp
      from ceil_div_step[OF C this]
      show ?thesis using cs(3) e by (simp add: diff_diff_left)
    next
      case False
      then have e: "e = length text" by (simp add: e_def)
      have "0 < length text - s" "length text - s < C" using False \<open>s < length text\<close> by simp_all
      from ceil_div_last[OF this] show ?thesis using cs(3) e C by simp
    qed
    have 4: "\<forall>i<length ?cs. ?cs ! i = take C (drop (s + i * C) text)"
    proof (intro allI impI)
      fix i assume i: "i < length ?cs"
      show "?cs ! i = take C (drop (s + i * C) text)"
      proof (cases i)
        case 0
        then show ?thesis by (simp add: chunk_def)
      next
        case (Suc j)
        with i have j: "j < length cs" by simp
        then have "cs \<noteq> []" by auto
        have "e = s + C"
        proof (rule ccontr)
          assume "e \<noteq> s + C"
          then have "e = length text" by (simp add: e_def min_def split: if_splits)
          then have "length cs = 0" using cs(3) C by simp
          with j show False by simp
        qed
        then show ?thesis using cs(4) j Suc by (simp add: ac_simps)
      qed
    qed
    from 1 2 3 4 show ?thesis by blast
  qed
qed

text \<open>
  C7. For a positive token budget the chunker returns: with \<open>C = 4 * maxTokens\<close> characters
  and a text of length \<open>L\<close> it yields exactly \<open>ceil (L / C)\<close> chunks, chunk \<open>i\<close> is the
  \<open>C\<close> characters of the text from offset \<open>i * C\<close> (in order, not overlapping), no chunk
  is longer than \<open>C\<close>, and the chunks concatenated are the text. The result is a function
  of the input, so a repeated call yields the same boundaries.
\<close>

theorem chunkTextByTokens_correct:
  assumes "0 < maxTokens"
  shows "\<exists>chunks. chunkTextByTokens text maxTokens = Some chunks
     \<and> length chunks = (length text + nat (4 * maxTokens) - 1) div nat (4 * maxTokens)
     \<and> (\<forall>i<length chunks. chunks ! i = take (nat (4 * maxTokens)) (drop (i * nat (4 * maxTokens)) text))
     \<and> (\<forall>i<length chunks. length (chunks ! i) \<le> nat (4 * maxTokens))
     \<and> concat chunks = text"
proof -
  let ?C = "nat (4 * maxTokens)"
  have C: "0 < ?C" using assms by simp
  have mc: "maxTokens * 4 = int ?C" using assms by simp
  from chunkLoop_spec[OF C, of 0 "text" "[]"]
  obtain cs where cs: "chunkLoop text (int ?C) (int 0) [] = Some ([] @ cs)"
    "concat cs = drop 0 text" "length cs = (length text - 0 + ?C - 1) div ?C"
    "\<forall>i<length cs. cs ! i = take ?C (drop (0 + i * ?C) text)"
    by blast
  have "chunkTextByTokens text maxTokens = Some cs"
    using cs(1) unfolding chunkTextByTokens_def Let_def mc by simp
  moreover have "\<forall>i<length cs. length (cs ! i) \<le> ?C" using cs(4) by simp
  ultimately show ?thesis using cs(2) cs(3) cs(4) by simp
qed

theorem chunkTextByTokens_correct_witness:
  "(0::int) < 1 \<and> (\<exists>chunks. chunkTextByTokens ''abcdefghij'' 1 = Some chunks
     \<and> length chunks = 3 \<and> concat chunks = ''abcdefghij'')"
  using chunkTextByTokens_correct[of 1 "''abcdefghij''"] by simp blast

section \<open>Properties of the callback handlers\<close>

lemma same_songs_refl [simp]: "same_songs db db"
  by (simp add: same_songs_def)

lemma same_songs_trans: "same_songs a b \<Longrightarrow> same_songs b c \<Longrightarrow> same_songs a c"
  by (simp add: same_songs_def)

lemma saveTracks_same_songs: "same_songs db (snd (saveTracks e ts results db))"
proof (induction ts arbitrary: results db)
  case Nil
  then show ?case by simp
next
  case (Cons t ts)
  have "same_songs db (db\<lparr>warnings := warnings db @ [NoAudioUrl]\<rparr>)"
    by (simp add: same_songs_def)
  then show ?case
    using Cons.IH same_songs_trans by (auto split: option.splits sum.splits)
qed

lemma download_same_songs:
  "same_songs db (snd (SunoService_downloadAndSaveSongFromCallback e callbackData db))"
proof -
  have "same_songs db db'" if "saveTracks e ts [] db = (out, db')" for ts out db'
    using saveTracks_same_songs[of db e ts "[]"] that by simp
  then show ?thesis
    by (auto simp: SunoService_downloadAndSaveSongFromCallback_def
        split: option.splits prod.splits sum.splits)
qed

lemma attachTracks_unknown:
  "attachTracks None infos acc db = (acc @ map snd infos, db)"
  by (induction infos arbitrary: acc db) simp_all

lemma attachTracks_known:
  "attachTracks (Some s) infos acc db =
     (acc @ map snd infos, db\<lparr>audioFiles := audioFiles db @ map (audioFile_of s) infos\<rparr>)"
  by (induction infos arbitrary: acc db) simp_all

lemma find_song_update:
  assumes "find P rows = Some s" and "\<And>row. P (f row) = P row"
  shows "find P (song_update (song_pk s) f rows) = Some (f s)"
  using assms(1)
proof (induction rows)
  case Nil
  then show ?case by simp
next
  case (Cons x xs)
  then show ?case using assms(2) by (auto simp: song_update_def split: if_splits)
qed

lemma liveCall_same_songs: "same_songs db (snd (liveCall svc e method endpoint params opts db))"
  by (cases svc)
     (simp_all add: same_songs_def liveCall_def GithubService_liveCall_def SunoService_liveCall_def
        GithubService_catch_def SunoService_catch_def GithubService_updateApiLimit_def
        SunoService_updateApiLimit_def Let_def split: sum.splits option.splits)

lemma catch_same_songs:
  "same_songs db (snd (GithubService_catch e method endpoint params h err db))"
  "same_songs db (snd (SunoService_catch e method endpoint params h err db))"
  by (simp_all add: same_songs_def GithubService_catch_def SunoService_catch_def split: option.splits)

lemma cachedApiCall_same_songs:
  "same_songs db (snd (cachedApiCall svc e method endpoint params opts db))"
proof (cases svc)
  case Github
  show ?thesis
    using liveCall_same_songs[of db Github e "method" endpoint params opts] catch_same_songs(1)
    by (simp add: Github cachedApiCall_def GithubService_cachedApiCall_def liveCall_def Let_def
        split: option.splits)
next
  case Suno
  show ?thesis
    using liveCall_same_songs[of db Suno e "method" endpoint params opts] catch_same_songs(2)
    by (simp add: Suno cachedApiCall_def SunoService_cachedApiCall_def liveCall_def Let_def
        split: option.splits)
qed

lemma suno_call_same_songs:
  "same_songs db (snd (SunoService_cachedApiCall e method endpoint params opts db))"
  using cachedApiCall_same_songs[of db Suno] by (simp add: cachedApiCall_def)

lemma checkSongStatus_same_songs:
  "same_songs db (snd (KaraokeService_checkSongStatus e taskId db))"
proof -
  have "same_songs db (snd (SunoService_getTaskDetails e taskId opts db))" for opts
    using suno_call_same_songs by (simp add: SunoService_getTaskDetails_def Let_def)
  from this[of "no_options\<lparr>disableCache := Some True\<rparr>"] show ?thesis
    by (auto simp: KaraokeService_checkSongStatus_def split: prod.splits sum.splits option.splits)
qed

lemma sample_download:
  "SunoService_downloadAndSaveSongFromCallback (sample_env\<lparr>callback_time := t\<rparr>) (Some complete_callback) db
     = (Inr [(\<lparr>track_id = Some ''a1'', audio_url = Some ''https://cdn.suno.example/a1.mp3''\<rparr>,
              sample_attachment)], db)"
  by (simp add: SunoService_downloadAndSaveSongFromCallback_def complete_callback_def sample_env_def)

lemma first_arrival_songs:
  "songs first_arrival = [pending_song\<lparr>status := ''completed'', completed_at := Some 2000,
                                       song_updated_at := 2000\<rparr>]"
  "length (audioFiles first_arrival) = 1"
proof -
  have e: "sample_env = sample_env\<lparr>callback_time := 2000\<rparr>" by (simp add: sample_env_def)
  have dl: "SunoService_downloadAndSaveSongFromCallback sample_env (Some complete_callback) db
     = (Inr [(\<lparr>track_id = Some ''a1'', audio_url = Some ''https://cdn.suno.example/a1.mp3''\<rparr>,
              sample_attachment)], db)" for db
    using sample_download[of 2000 db] e by simp
  have t: "callback_time sample_env = 2000" by (simp add: sample_env_def)
  show "songs first_arrival = [pending_song\<lparr>status := ''completed'', completed_at := Some 2000,
                                       song_updated_at := 2000\<rparr>]"
    by (simp add: first_arrival_def KaraokeService_handleSunoCallback_def dl Let_def
        attachTracks_known t song_update_def)
       (simp add: complete_callback_def pending_song_def empty_tables_def song_update_def)
  show "length (audioFiles first_arrival) = 1"
    by (simp add: first_arrival_def KaraokeService_handleSunoCallback_def dl Let_def
        attachTracks_known t song_update_def)
       (simp add: complete_callback_def pending_song_def empty_tables_def song_update_def)
qed

text \<open>
  C3, as amended. The handler has no check of the current status. For a known task whose
  files were downloaded, a callback of type \<open>complete\<close> sets the status to \<open>completed\<close>
  and \<open>completed_at\<close> to the time of this arrival, whatever the row held before; a
  callback of another type leaves the song rows as they are; either one appends an
  audio-file row for every downloaded track. A status poll (\<open>checkSongStatus\<close>) writes
  neither table.
\<close>

theorem callback_rewrites_known_task:
  assumes known: "find (\<lambda>s. suno_task_id s = Some (task_id d)) (songs db) = Some s"
    and saved: "SunoService_downloadAndSaveSongFromCallback e (Some d) db = (Inr savedFiles, db1)"
  shows "(let (res, db') = KaraokeService_handleSunoCallback e (Some d) db
          in (if callbackType d = Some ''complete''
              then find (\<lambda>s. suno_task_id s = Some (task_id d)) (songs db')
                     = Some (s\<lparr>status := ''completed'', completed_at := Some (callback_time e),
                              song_updated_at := callback_time e\<rparr>)
              else songs db' = songs db)
             \<and> audioFiles db' = audioFiles db @ map (audioFile_of s) savedFiles)
       \<and> songs (snd (KaraokeService_checkSongStatus e' taskId db)) = songs db
       \<and> audioFiles (snd (KaraokeService_checkSongStatus e' taskId db)) = audioFiles db"
proof -
  have same: "songs db1 = songs db" "audioFiles db1 = audioFiles db"
    using download_same_songs[of db e "Some d"] by (simp_all add: saved same_songs_def)
  let ?f = "\<lambda>row. row\<lparr>status := ''completed'', completed_at := Some (callback_time e),
                         song_updated_at := callback_time e\<rparr>"
  have upd: "find (\<lambda>s. suno_task_id s = Some (task_id d)) (song_update (song_pk s) ?f (songs db))
               = Some (?f s)"
    by (rule find_song_update[OF known]) simp
  have cb: "(let (res, db') = KaraokeService_handleSunoCallback e (Some d) db
          in (if callbackType d = Some ''complete''
              then find (\<lambda>s. suno_task_id s = Some (task_id d)) (songs db') = Some (?f s)
              else songs db' = songs db)
             \<and> audioFiles db' = audioFiles db @ map (audioFile_of s) savedFiles)"
    using known same upd
    by (auto simp: KaraokeService_handleSunoCallback_def saved Let_def attachTracks_known
        split: option.splits)
  have poll: "songs (snd (KaraokeService_checkSongStatus e' taskId db)) = songs db
       \<and> audioFiles (snd (KaraokeService_checkSongStatus e' taskId db)) = audioFiles db"
    using checkSongStatus_same_songs[of db e' taskId] by (simp add: same_songs_def)
  from cb poll show ?thesis by blast
qed

theorem callback_rewrites_known_task_witness:
  "find (\<lambda>s. suno_task_id s = Some (task_id complete_callback)) (songs first_arrival)
     = Some (pending_song\<lparr>status := ''completed'', completed_at := Some 2000, song_updated_at := 2000\<rparr>)
   \<and> SunoService_downloadAndSaveSongFromCallback (sample_env\<lparr>callback_time := 3000\<rparr>)
        (Some complete_callback) first_arrival
     = (Inr [(\<lparr>track_id = Some ''a1'', audio_url = Some ''https://cdn.suno.example/a1.mp3''\<rparr>,
              sample_attachment)], first_arrival)
   \<and> find (\<lambda>s. suno_task_id s = Some (task_id complete_callback)) (songs second_arrival)
     = Some (pending_song\<lparr>status := ''completed'', completed_at := Some 3000, song_updated_at := 3000\<rparr>)"
proof -
  have 1: "find (\<lambda>s. suno_task_id s = Some (task_id complete_callback)) (songs first_arrival)
     = Some (pending_song\<lparr>status := ''completed'', completed_at := Some 2000, song_updated_at := 2000\<rparr>)"
    by (simp add: first_arrival_songs) (simp add: pending_song_def complete_callback_def)
  have c: "callbackType complete_callback = Some ''complete''" by (simp add: complete_callback_def)
  from callback_rewrites_known_task[OF 1 sample_download[of 3000 first_arrival],
         where e' = sample_env and taskId = "''T1''"]
  have "find (\<lambda>s. suno_task_id s = Some (task_id complete_callback)) (songs second_arrival)
     = Some (pending_song\<lparr>status := ''completed'', completed_at := Some 3000, song_updated_at := 3000\<rparr>)"
    by (simp add: second_arrival_def c split: prod.splits)
  with 1 sample_download[of 3000 first_arrival] show ?thesis by simp
qed

text \<open>
  C3 as stated fails: the same \<open>complete\<close> callback arrives at time 2000 and again
  at time 3000; the second arrival moves \<open>completed_at\<close> from 2000 to 3000 and adds a
  second audio-file row.
\<close>

theorem duplicate_callback_counterexample:
  "map status (songs first_arrival) = [''completed'']
   \<and> map completed_at (songs first_arrival) = [Some 2000]
   \<and> length (audioFiles first_arrival) = 1
   \<and> map status (songs second_arrival) = [''completed'']
   \<and> map completed_at (songs second_arrival) = [Some 3000]
   \<and> length (audioFiles second_arrival) = 2"
proof -
  have t: "callback_time (sample_env\<lparr>callback_time := 3000\<rparr>) = 3000" by simp
  have 2: "map completed_at (songs second_arrival) = [Some 3000]
     \<and> map status (songs second_arrival) = [''completed'']
     \<and> length (audioFiles second_arrival) = 2"
    using first_arrival_songs
    by (simp add: second_arrival_def KaraokeService_handleSunoCallback_def sample_download Let_def
        attachTracks_known song_update_def)
       (simp add: complete_callback_def pending_song_def song_update_def)
  show ?thesis using first_arrival_songs 2 by simp
qed

text \<open>
  C8, as amended. A callback whose task id matches no song never creates or changes a song
  row or an audio-file row. \<open>handleSunoCallback\<close> downloads the tracks before it looks
  the song up: when the download step fails it throws and logs no warning about the
  unknown id; when the download step succeeds it logs the warning and returns its result.
  \<open>handleSunoCallbackLyrics\<close> always logs the warning, returns its result and changes
  nothing else.
\<close>

theorem unknown_task_creates_nothing:
  assumes "find (\<lambda>s. suno_task_id s = Some (task_id d)) (songs db) = None"
  shows "(let (res, db') = KaraokeService_handleSunoCallback e (Some d) db
          in songs db' = songs db \<and> audioFiles db' = audioFiles db
             \<and> (case SunoService_downloadAndSaveSongFromCallback e (Some d) db of
                   (Inl error, db1) \<Rightarrow>
                     res = Inl (Error (''Error handling Suno callback: '' @ message error)) \<and> db' = db1
                 | (Inr savedFiles, db1) \<Rightarrow>
                     res = Inr \<lparr>res_taskId = task_id d,
                                res_callbackType = (case callbackType d of None \<Rightarrow> [] | Some t \<Rightarrow> t),
                                res_savedFiles = savedFiles, res_doAttachments = map snd savedFiles\<rparr>
                     \<and> db' = db1\<lparr>warnings := warnings db1 @ [NoSongRecord (task_id d)]\<rparr>))
       \<and> KaraokeService_handleSunoCallbackLyrics e (Some d) db =
           (Inr \<lparr>res_taskId = task_id d,
                 res_callbackType =
                   (case callbackType d of None \<Rightarrow> ''lyrics'' | Some t \<Rightarrow> if t = [] then ''lyrics'' else t),
                 res_savedFiles = [], res_doAttachments = []\<rparr>,
            db\<lparr>warnings := warnings db @ [NoSongRecord (task_id d)]\<rparr>)"
proof -
  obtain out db1 where dl: "SunoService_downloadAndSaveSongFromCallback e (Some d) db = (out, db1)"
    by (cases "SunoService_downloadAndSaveSongFromCallback e (Some d) db")
  have same: "songs db1 = songs db" "audioFiles db1 = audioFiles db"
    using download_same_songs[of db e "Some d"] by (simp_all add: dl same_songs_def)
  have audio: "(let (res, db') = KaraokeService_handleSunoCallback e (Some d) db
          in songs db' = songs db \<and> audioFiles db' = audioFiles db
             \<and> (case SunoService_downloadAndSaveSongFromCallback e (Some d) db of
                   (Inl error, db1) \<Rightarrow>
                     res = Inl (Error (''Error handling Suno callback: '' @ message error)) \<and> db' = db1
                 | (Inr savedFiles, db1) \<Rightarrow>
                     res = Inr \<lparr>res_taskId = task_id d,
                                res_callbackType = (case callbackType d of None \<Rightarrow> [] | Some t \<Rightarrow> t),
                                res_savedFiles = savedFiles, res_doAttachments = map snd savedFiles\<rparr>
                     \<and> db' = db1\<lparr>warnings := warnings db1 @ [NoSongRecord (task_id d)]\<rparr>))"
  proof (cases out)
    case (Inl error)
    then show ?thesis using same
      by (simp add: KaraokeService_handleSunoCallback_def dl)
  next
    case (Inr savedFiles)
    then show ?thesis using same assms
      by (simp add: KaraokeService_handleSunoCallback_def dl Let_def attachTracks_unknown)
  qed
  have lyr: "KaraokeService_handleSunoCallbackLyrics e (Some d) db =
           (Inr \<lparr>res_taskId = task_id d,
                 res_callbackType =
                   (case callbackType d of None \<Rightarrow> ''lyrics'' | Some t \<Rightarrow> if t = [] then ''lyrics'' else t),
                 res_savedFiles = [], res_doAttachments = []\<rparr>,
            db\<lparr>warnings := warnings db @ [NoSongRecord (task_id d)]\<rparr>)"
    using assms by (simp add: KaraokeService_handleSunoCallbackLyrics_def Let_def)
  from audio lyr show ?thesis by blast
qed

theorem unknown_task_creates_nothing_witness:
  "find (\<lambda>s. suno_task_id s = Some (task_id complete_callback)) (songs empty_tables) = None
   \<and> KaraokeService_handleSunoCallback sample_env (Some complete_callback) empty_tables =
       (Inr \<lparr>res_taskId = ''T1'', res_callbackType = ''complete'',
             res_savedFiles = [(\<lparr>track_id = Some ''a1'', audio_url = Some ''https://cdn.suno.example/a1.mp3''\<rparr>,
                               sample_attachment)],
             res_doAttachments = [sample_attachment]\<rparr>,
        empty_tables\<lparr>warnings := [NoSongRecord ''T1'']\<rparr>)
   \<and> KaraokeService_handleSunoCallbackLyrics sample_env (Some complete_callback) empty_tables =
       (Inr \<lparr>res_taskId = ''T1'', res_callbackType = ''complete'',
             res_savedFiles = [], res_doAttachments = []\<rparr>,
        empty_tables\<lparr>warnings := [NoSongRecord ''T1'']\<rparr>)"
proof -
  have 1: "find (\<lambda>s. suno_task_id s = Some (task_id complete_callback)) (songs empty_tables) = None"
    by (simp add: empty_tables_def)
  have dl: "SunoService_downloadAndSaveSongFromCallback sample_env (Some complete_callback) empty_tables
     = (Inr [(\<lparr>track_id = Some ''a1'', audio_url = Some ''https://cdn.suno.example/a1.mp3''\<rparr>,
              sample_attachment)], empty_tables)"
    by (simp add: SunoService_downloadAndSaveSongFromCallback_def complete_callback_def sample_env_def)
  have cb: "task_id complete_callback = ''T1''" "callbackType complete_callback = Some ''complete''"
    by (simp_all add: complete_callback_def)
  from unknown_task_creates_nothing[OF 1, of sample_env] 1 show ?thesis
    unfolding dl cb by (simp add: Let_def empty_tables_def split: prod.splits)
qed

text \<open>
  C8 as stated fails: no song has the task id \<open>T9\<close> and the callback carries no track
  array, or no song has the task id \<open>T1\<close> and the upload service cannot fetch the
  track; \<open>handleSunoCallback\<close> throws and the warning list stays empty.
\<close>

theorem unknown_task_hard_error_counterexample:
  "find (\<lambda>s. suno_task_id s = Some (task_id trackless_callback)) (songs empty_tables) = None
   \<and> KaraokeService_handleSunoCallback sample_env (Some trackless_callback) empty_tables
       = (Inl (Error (''Error handling Suno callback: Error downloading song: ''
                      @ ''Estructura de callback data inv'' @ [CHR 0xC3, CHR 0xA1] @ ''lida'')),
          empty_tables)
   \<and> warnings empty_tables = []
   \<and> find (\<lambda>s. suno_task_id s = Some (task_id complete_callback)) (songs empty_tables) = None
   \<and> KaraokeService_handleSunoCallback upload_failure_env (Some complete_callback) empty_tables
       = (Inl (Error ''Error handling Suno callback: Error downloading song: connect ETIMEDOUT''),
          empty_tables)"
  by (simp add: KaraokeService_handleSunoCallback_def
      SunoService_downloadAndSaveSongFromCallback_def trackless_callback_def complete_callback_def
      upload_failure_env_def sample_env_def empty_tables_def Error_def)

section \<open>Properties of song generation\<close>

lemma generateAudio_same_songs: "same_songs db (snd (SunoService_generateAudio e p db))"
  using suno_call_same_songs by (simp add: SunoService_generateAudio_def Let_def)

lemma generateLyrics_same_songs: "same_songs db (snd (SunoService_generateLyrics e p cb db))"
  using suno_call_same_songs by (simp add: SunoService_generateLyrics_def Let_def)

lemma submit_same_songs: "same_songs db (snd (submit_generation r opts a db))"
proof (cases "instrumental_only opts")
  case True
  then show ?thesis by (simp add: submit_generation_def generateAudio_same_songs)
next
  case False
  obtain out db1 where l: "SunoService_generateLyrics (lyrics_env r) (songLyrics a)
      (callbackUrl opts @ ''/karaoke/callback/lyrics'') db = (out, db1)"
    by (cases "SunoService_generateLyrics (lyrics_env r) (songLyrics a)
      (callbackUrl opts @ ''/karaoke/callback/lyrics'') db")
  have 1: "same_songs db db1"
    using generateLyrics_same_songs[of db "lyrics_env r" "songLyrics a"
        "callbackUrl opts @ ''/karaoke/callback/lyrics''"] by (simp add: l)
  show ?thesis
    using False 1 same_songs_trans[OF 1 generateAudio_same_songs]
    by (cases out) (simp_all add: submit_generation_def l)
qed

lemma suno_success_recorded:
  assumes "SunoService_cachedApiCall e method endpoint params opts db = (Inr reply, db1)"
  shows "recorded reply db1"
proof (cases "reaches_live Suno e method endpoint params opts db")
  case True
  have call: "liveCall Suno e method endpoint params opts db = (Inr reply, db1)"
    using reaches_live_call[OF True] assms by (simp add: cachedApiCall_def)
  show ?thesis
  proof (cases "axios e (live_request Suno e method endpoint params opts)")
    case (Inl err)
    then show ?thesis using call by (simp add: liveCall_failure split: option.splits)
  next
    case (Inr resp)
    show ?thesis
    proof (cases "upsert_error e")
      case (Some err)
      then show ?thesis using call Inr by (simp add: liveCall_store_failure split: option.splits)
    next
      case None
      have "db1 = updateApiLimit Suno e (success_row Suno e method endpoint params opts resp
                    (sent Suno e method endpoint params opts db))" "reply = resp_data resp"
        using call by (simp_all add: liveCall_success[OF Inr None])
      then show ?thesis
        using success_row_facts(3)[of Suno e "method" endpoint params opts resp
                "sent Suno e method endpoint params opts db"]
        by (auto simp: recorded_def updateApiLimit_apiCalls)
    qed
  qed
next
  case False
  then have rc: "reads_cache Suno opts" by (simp add: reaches_live_def)
  have fe: "find_error e = None"
  proof (cases "find_error e")
    case (Some err)
    from lookup_failure[OF rc Some, of "method" endpoint params db] assms show ?thesis
      by (simp add: cachedApiCall_def)
  qed simp
  from False rc fe obtain c where c: "reads_cache Suno opts" "find_error e = None"
      "apiCalls db (generateRequestHash Suno method endpoint params) = Some c"
      "is_success c" "fresh (check_time e) c"
    by (auto simp: reaches_live_def split: option.splits)
  from cachedApiCall_hit[OF c(1) c(2) c(3)] c(4) c(5) assms have "reply = response c" "db1 = db"
    by (simp_all add: cachedApiCall_def cache_valid_iff)
  then show ?thesis using c(3) c(4) by (auto simp: recorded_def)
qed

lemma submit_success_recorded:
  assumes "submit_generation r opts a db = (Inr reply, db1)"
  shows "recorded reply db1"
proof -
  have audio: "recorded reply db1" if "SunoService_generateAudio e p db0 = (Inr reply, db1)" for e p db0
    using that suno_success_recorded
    by (auto simp: SunoService_generateAudio_def Let_def split: if_splits)
  show ?thesis
  proof (cases "instrumental_only opts")
    case True
    then show ?thesis using assms audio by (simp add: submit_generation_def)
  next
    case False
    then show ?thesis using assms audio
      by (auto simp: submit_generation_def split: prod.splits sum.splits)
  qed
qed

lemma coverPrompt_nonempty: "coverPrompt ttl sty \<noteq> []"
  by (simp add: coverPrompt_def)

lemma constant_reply:
  assumes e: "find_error e = None" "upsert_error e = None"
      "\<And>cfg. axios e cfg = Inr \<lparr>resp_status = 200, resp_data = reply\<rparr>"
    and db: "all_replies reply db"
  shows "fst (SunoService_cachedApiCall e method endpoint params opts db) = Inr reply
       \<and> all_replies reply (snd (SunoService_cachedApiCall e method endpoint params opts db))"
proof (cases "reaches_live Suno e method endpoint params opts db")
  case True
  let ?h = "generateRequestHash Suno method endpoint params"
  let ?resp = "\<lparr>resp_status = 200, resp_data = reply\<rparr>"
  let ?db = "success_row Suno e method endpoint params opts ?resp (sent Suno e method endpoint params opts db)"
  have call: "SunoService_cachedApiCall e method endpoint params opts db
      = (Inr reply, updateApiLimit Suno e ?db)"
    using reaches_live_call[OF True] liveCall_success[OF e(3) e(2)] by (simp add: cachedApiCall_def)
  have "response row = reply" if "apiCalls ?db k = Some row" for k row
  proof (cases "k = ?h")
    case True
    then show ?thesis
      using that success_row_facts(3)[of Suno e "method" endpoint params opts ?resp
                "sent Suno e method endpoint params opts db"]
      by auto
  next
    case False
    then have "apiCalls ?db k = apiCalls db k"
      by (simp add: success_row_def sent_def record_success_other)
    then show ?thesis using that db by (simp add: all_replies_def)
  qed
  then show ?thesis by (simp add: call all_replies_def updateApiLimit_apiCalls)
next
  case False
  with e(1) obtain c where c: "reads_cache Suno opts"
      "apiCalls db (generateRequestHash Suno method endpoint params) = Some c"
      "is_success c" "fresh (check_time e) c"
    by (auto simp: reaches_live_def split: option.splits)
  from cachedApiCall_hit[OF c(1) e(1) c(2)] c(2) c(3) c(4) db show ?thesis
    by (simp add: cachedApiCall_def all_replies_def cache_valid_iff)
qed

lemma sample_submit:
  "fst (submit_generation sample_run sample_request sample_analysis empty_tables) = Inr success_reply"
proof -
  have e: "find_error sample_env = None" "upsert_error sample_env = None"
    "\<And>cfg. axios sample_env cfg = Inr \<lparr>resp_status = 200, resp_data = success_reply\<rparr>"
    by (simp_all add: sample_env_def)
  have 0: "all_replies success_reply empty_tables"
    by (simp add: all_replies_def empty_tables_def)
  let ?lyr = "SunoService_cachedApiCall sample_env ''POST'' ''/v1/lyrics''
      (JObj [(''prompt'', JStr (songLyrics sample_analysis)),
             (''callBackUrl'', JStr (callbackUrl sample_request @ ''/karaoke/callback/lyrics''))])
      no_options empty_tables"
  from constant_reply[OF e 0] have 1: "fst ?lyr = Inr success_reply" "all_replies success_reply (snd ?lyr)"
    by blast+
  have lyr: "SunoService_generateLyrics sample_env (songLyrics sample_analysis)
      (callbackUrl sample_request @ ''/karaoke/callback/lyrics'') empty_tables = (Inr success_reply, snd ?lyr)"
    using 1(1) by (simp add: SunoService_generateLyrics_def Let_def sample_analysis_def
        sample_request_def prod_eq_iff)
  have aud: "fst (SunoService_generateAudio sample_env
      \<lparr>ap_prompt = songLyrics sample_analysis, ap_style = Some (musicStyle sample_request),
       ap_title = Some (songTitle sample_analysis), ap_customMode = True, ap_instrumental = False,
       ap_model = ''V3_5'', ap_callBackUrl = callbackUrl sample_request @ ''/karaoke/callback''\<rparr>
      (snd ?lyr)) = Inr success_reply"
    using constant_reply[OF e 1(2)]
    by (simp add: SunoService_generateAudio_def Let_def sample_analysis_def sample_request_def
        falsy_string_def)
  show ?thesis
    using aud by (simp add: submit_generation_def sample_run_def lyr) (simp add: sample_request_def)
qed

lemma sample_submit_eq:
  "submit_generation sample_run sample_request sample_analysis empty_tables
     = (Inr success_reply, after_submit)"
  using sample_submit by (simp add: prod_eq_iff after_submit_def)

text \<open>
  C9, as amended. When the submission to Suno succeeded, its reply carries a task id, and
  the cover image fails, the run fails with an error that names the cover-image step, and
  no song row is created: the song is stored only after the cover. What remains of the
  task is the succeeded row of the cached call that holds the reply.
\<close>

theorem cover_failure_creates_no_song:
  assumes urls: "repoUrl opts \<noteq> []" "callbackUrl opts \<noteq> []"
    and submit: "submit_generation r opts a db = (Inr reply, db1)"
    and data: "truthy reply" "property reply ''data'' = Some d" "truthy d"
    and task: "property d ''taskId'' = Some taskId" "truthy taskId"
    and cover: "openai_image (cover_env r) (coverPrompt (songTitle a) (musicStyle opts)) = Inl err"
  shows "KaraokeService_generateSongFromRepo r opts a db =
           (Inl (Error (''Error generating song from repository: Error generando cover image: ''
                        @ message err)), db1)
       \<and> songs db1 = songs db
       \<and> recorded reply db1"
proof -
  have c: "AIService_generateCoverImage (cover_env r) (coverPrompt (songTitle a) (musicStyle opts))
             = Inl (Error (''Error generando cover image: '' @ message err))"
    using cover by (simp add: AIService_generateCoverImage_def coverPrompt_nonempty)
  have run: "KaraokeService_generateSongFromRepo r opts a db =
           (Inl (Error (''Error generating song from repository: Error generando cover image: ''
                        @ message err)), db1)"
    using urls data task by (simp add: KaraokeService_generateSongFromRepo_def submit c Error_def)
  have same: "songs db1 = songs db"
    using submit_same_songs[of db r opts a] by (simp add: submit same_songs_def)
  from run same submit_success_recorded[OF submit] show ?thesis by blast
qed

theorem cover_failure_creates_no_song_witness:
  "repoUrl sample_request \<noteq> [] \<and> callbackUrl sample_request \<noteq> []
   \<and> submit_generation sample_run sample_request sample_analysis empty_tables
     = (Inr success_reply, after_submit)
   \<and> truthy success_reply
   \<and> property success_reply ''data'' = Some (JObj [(''taskId'', JStr ''T1''), (''status'', JStr ''SUCCESS'')])
   \<and> openai_image (cover_env sample_run)
        (coverPrompt (songTitle sample_analysis) (musicStyle sample_request))
      = Inl (Error ''image service unavailable'')
   \<and> KaraokeService_generateSongFromRepo sample_run sample_request sample_analysis empty_tables
      = (Inl (Error (''Error generating song from repository: Error generando cover image: ''
                     @ message (Error ''image service unavailable''))), after_submit)
   \<and> songs after_submit = []
   \<and> recorded success_reply after_submit"
proof -
  let ?d = "JObj [(''taskId'', JStr ''T1''), (''status'', JStr ''SUCCESS'')]"
  have 2: "truthy success_reply" "property success_reply ''data'' = Some ?d" "truthy ?d"
    by (simp_all add: success_reply_def property_def)
  have 3: "property ?d ''taskId'' = Some (JStr ''T1'')" "truthy (JStr ''T1'')"
    by (simp_all add: property_def)
  have 4: "openai_image (cover_env sample_run)
        (coverPrompt (songTitle sample_analysis) (musicStyle sample_request))
      = Inl (Error ''image service unavailable'')"
    by (simp add: sample_run_def sample_env_def)
  have 5: "songs empty_tables = []" by (simp add: empty_tables_def)
  have 6: "repoUrl sample_request \<noteq> []" "callbackUrl sample_request \<noteq> []"
    by (simp_all add: sample_request_def)
  from cover_failure_creates_no_song[OF 6 sample_submit_eq 2 3 4] sample_submit_eq 2 4 5 6
  show ?thesis by simp
qed

text \<open>
  C9 as stated fails: the lyrics were written, Suno answered with the task id
  \<open>T1\<close>, the image service failed, and the song table holds no row.
\<close>

theorem cover_failure_counterexample:
  "fst (submit_generation sample_run sample_request sample_analysis empty_tables) = Inr success_reply
   \<and> property success_reply ''data'' = Some (JObj [(''taskId'', JStr ''T1''), (''status'', JStr ''SUCCESS'')])
   \<and> fst (KaraokeService_generateSongFromRepo sample_run sample_request sample_analysis empty_tables)
      = Inl (Error (''Error generating song from repository: Error generando cover image: ''
                    @ ''image service unavailable''))
   \<and> songs (snd (KaraokeService_generateSongFromRepo sample_run sample_request sample_analysis
                     empty_tables)) = []"
proof -
  have c: "AIService_generateCoverImage (cover_env sample_run)
             (coverPrompt (songTitle sample_analysis) (musicStyle sample_request))
             = Inl (Error (''Error generando cover image: '' @ ''image service unavailable''))"
    by (simp add: AIService_generateCoverImage_def coverPrompt_nonempty sample_run_def sample_env_def
        Error_def)
  have p: "truthy success_reply"
    "property success_reply ''data'' = Some (JObj [(''taskId'', JStr ''T1''), (''status'', JStr ''SUCCESS'')])"
    "property (JObj [(''taskId'', JStr ''T1''), (''status'', JStr ''SUCCESS'')]) ''taskId'' = Some (JStr ''T1'')"
    by (simp_all add: success_reply_def property_def)
  have run: "KaraokeService_generateSongFromRepo sample_run sample_request sample_analysis empty_tables
      = (Inl (Error (''Error generating song from repository: Error generando cover image: ''
                    @ ''image service unavailable'')), after_submit)"
    unfolding KaraokeService_generateSongFromRepo_def sample_submit_eq
    by (simp add: p c Error_def) (simp add: sample_request_def)
  have "songs after_submit = songs empty_tables"
    using submit_same_songs[of empty_tables sample_run sample_request sample_analysis]
    by (simp add: same_songs_def after_submit_def)
  then show ?thesis
    using sample_submit run p(2) by (simp add: empty_tables_def)
qed

end
